theory Spec2Isabelle
  imports Main "HOL-Library.AList" "HOL-Library.Log_Nat"
begin

section \<open>The kindness wall: data model\<close>

text \<open>
  The application (\<^verbatim>\<open>src/app.py\<close>, with an older variant of the submission routes
  in \<^verbatim>\<open>src/r.py\<close>) keeps appreciation notes in a relational store and aggregates the
  approved ones.  Tables are lists of rows in the order the store returns them; a Python
  \<^verbatim>\<open>dict\<close> is an association list in insertion order; the clock
  (\<^verbatim>\<open>datetime.utcnow()\<close>) and the submitted form are explicit arguments; an
  exception is a value of \<open>py_error\<close>.
\<close>

datatype py_error = ValueError | OverflowError | ZeroDivisionError

subsection \<open>Naive datetimes\<close>

text \<open>
  A \<^verbatim>\<open>datetime\<close> without time zone is its seven fields; two of them compare
  field by field, the year first.
\<close>

record datetime =
  year :: nat
  month :: nat
  day :: nat
  hour :: nat
  minute :: nat
  second :: nat
  microsecond :: nat

definition dt_fields :: "datetime \<Rightarrow> nat list" where
  "dt_fields d = [year d, month d, day d, hour d, minute d, second d, microsecond d]"

fun lex_le :: "nat list \<Rightarrow> nat list \<Rightarrow> bool" where
  "lex_le [] ys = True"
| "lex_le (x # xs) [] = False"
| "lex_le (x # xs) (y # ys) = (x < y \<or> (x = y \<and> lex_le xs ys))"

definition dt_le :: "datetime \<Rightarrow> datetime \<Rightarrow> bool" where
  "dt_le a b = lex_le (dt_fields a) (dt_fields b)"

definition is_leap :: "nat \<Rightarrow> bool" where
  "is_leap y = (y mod 4 = 0 \<and> (y mod 100 \<noteq> 0 \<or> y mod 400 = 0))"

definition days_in_month :: "nat \<Rightarrow> nat \<Rightarrow> nat" where
  "days_in_month y m =
     (if m = 2 then (if is_leap y then 29 else 28)
      else if m = 4 \<or> m = 6 \<or> m = 9 \<or> m = 11 then 30 else 31)"

text \<open>
  \<^verbatim>\<open>now - timedelta(days=7)\<close> steps back one calendar day seven times; the time of
  day is kept.  Before 0001-01-01 Python raises \<^verbatim>\<open>OverflowError\<close>.
\<close>

definition prev_day :: "datetime \<Rightarrow> py_error + datetime" where
  "prev_day d =
     (if 1 < day d then Inr (d\<lparr>day := day d - 1\<rparr>)
      else if 1 < month d then
        Inr (d\<lparr>month := month d - 1, day := days_in_month (year d) (month d - 1)\<rparr>)
      else if 1 < year d then Inr (d\<lparr>year := year d - 1, month := 12, day := 31\<rparr>)
      else Inl OverflowError)"

fun minus_days :: "datetime \<Rightarrow> nat \<Rightarrow> py_error + datetime" where
  "minus_days d 0 = Inr d"
| "minus_days d (Suc n) = (case prev_day d of Inl e \<Rightarrow> Inl e | Inr d' \<Rightarrow> minus_days d' n)"

definition epoch :: datetime where
  "epoch = \<lparr>year = 1970, month = 1, day = 1, hour = 0, minute = 0, second = 0,
            microsecond = 0\<rparr>"

text \<open>\<^verbatim>\<open>period_ranges\<close> of \<^verbatim>\<open>app.py\<close>: the four windows, in the order of the dict.\<close>

definition period_ranges :: "datetime \<Rightarrow> py_error + (string \<times> datetime \<times> datetime) list" where
  "period_ranges now =
     (case minus_days now 7 of
        Inl e \<Rightarrow> Inl e
      | Inr weekly_start \<Rightarrow>
          let monthly_start = now\<lparr>day := 1, hour := 0, minute := 0, second := 0,
                                  microsecond := 0\<rparr>;
              yearly_start = now\<lparr>month := 1, day := 1, hour := 0, minute := 0, second := 0,
                                 microsecond := 0\<rparr>
          in Inr [(''weekly'', weekly_start, now),
                  (''monthly'', monthly_start, now),
                  (''yearly'', yearly_start, now),
                  (''alltime'', epoch, now)])"

subsection \<open>Tables\<close>

record class_section =
  cs_id :: int
  class_name :: string
  section_name :: string

record student =
  student_id :: int
  student_name :: string
  student_class_section_id :: int

record teacher =
  teacher_id :: int
  teacher_name :: string
  subject :: string

record staff =
  staff_id :: int
  staff_name :: string
  staff_role :: string

text \<open>
  A row of \<^verbatim>\<open>Note\<close>.  Nullable columns are options; \<open>status\<close> and the two type
  columns are the strings the code compares.
\<close>

record note_row =
  note_id :: int
  giver_type :: string
  giver_name :: "string option"
  giver_section_id :: "int option"
  receiver_type :: string
  message :: string
  receiver_name_text :: "string option"
  receiver_section_id :: "int option"
  receiver_student_id :: "int option"
  receiver_teacher_id :: "int option"
  receiver_staff_id :: "int option"
  weight_applied :: "int option"
  status :: string
  created_at :: datetime

record database =
  class_sections :: "class_section list"
  students :: "student list"
  teachers :: "teacher list"
  staffs :: "staff list"
  note_table :: "note_row list"

definition label :: "class_section \<Rightarrow> string" where
  "label s = class_name s @ ''-'' @ section_name s"

text \<open>\<^verbatim>\<open>db.session.get(Model, key)\<close>: the row with that primary key, if any.\<close>

definition get_class_section :: "database \<Rightarrow> int \<Rightarrow> class_section option" where
  "get_class_section db i = find (\<lambda>s. cs_id s = i) (class_sections db)"

definition get_teacher :: "database \<Rightarrow> int \<Rightarrow> teacher option" where
  "get_teacher db i = find (\<lambda>t. teacher_id t = i) (teachers db)"

definition get_staff :: "database \<Rightarrow> int \<Rightarrow> staff option" where
  "get_staff db i = find (\<lambda>s. staff_id s = i) (staffs db)"

definition get_student :: "database \<Rightarrow> int \<Rightarrow> student option" where
  "get_student db i = find (\<lambda>s. student_id s = i) (students db)"

text \<open>The relationships of a note follow its foreign key; a null key gives \<^verbatim>\<open>None\<close>.\<close>

definition receiver_teacher :: "database \<Rightarrow> note_row \<Rightarrow> teacher option" where
  "receiver_teacher db n =
     (case receiver_teacher_id n of None \<Rightarrow> None | Some i \<Rightarrow> get_teacher db i)"

definition receiver_staff :: "database \<Rightarrow> note_row \<Rightarrow> staff option" where
  "receiver_staff db n =
     (case receiver_staff_id n of None \<Rightarrow> None | Some i \<Rightarrow> get_staff db i)"

definition receiver_student :: "database \<Rightarrow> note_row \<Rightarrow> student option" where
  "receiver_student db n =
     (case receiver_student_id n of None \<Rightarrow> None | Some i \<Rightarrow> get_student db i)"

subsection \<open>Dictionaries, \<^verbatim>\<open>max\<close> and \<^verbatim>\<open>str\<close>\<close>

text \<open>
  \<^verbatim>\<open>d.get(k, 0)\<close> and \<^verbatim>\<open>d[k] = v\<close>; \<open>AList.update\<close> overwrites an existing
  key in place and appends a new one, which is the insertion order of a Python dict.
\<close>

definition dict_get :: "('k \<times> 'v) list \<Rightarrow> 'k \<Rightarrow> 'v \<Rightarrow> 'v" where
  "dict_get d k dflt = (case map_of d k of None \<Rightarrow> dflt | Some v \<Rightarrow> v)"

text \<open>
  \<^verbatim>\<open>if n.some_id: d[n.some_id] = d.get(n.some_id, 0) + inc\<close>: a null id and the
  id 0 are falsy and leave the dict alone.
\<close>

definition add_count :: "(int \<times> int) list \<Rightarrow> int option \<Rightarrow> int \<Rightarrow> (int \<times> int) list" where
  "add_count d key inc =
     (case key of
        None \<Rightarrow> d
      | Some k \<Rightarrow> if k = 0 then d else AList.update k (dict_get d k 0 + inc) d)"

text \<open>
  \<^verbatim>\<open>max(items, key=lambda x: x[1])\<close> keeps the first item whose value is the
  largest: a later item replaces the best one only when it is strictly greater.
\<close>

fun max_from :: "('k \<times> int) \<Rightarrow> ('k \<times> int) list \<Rightarrow> ('k \<times> int)" where
  "max_from best [] = best"
| "max_from best (x # xs) = (if snd best < snd x then max_from x xs else max_from best xs)"

text \<open>\<^verbatim>\<open>max(d.items(), key=...) if d else None\<close>\<close>

definition best_of :: "('k \<times> int) list \<Rightarrow> ('k \<times> int) option" where
  "best_of d = (case d of [] \<Rightarrow> None | x # xs \<Rightarrow> Some (max_from x xs))"

fun str_nat :: "nat \<Rightarrow> string" where
  "str_nat n =
     (if n < 10 then [char_of (48 + n)] else str_nat (n div 10) @ [char_of (48 + n mod 10)])"

definition str_int :: "int \<Rightarrow> string" where
  "str_int i = (if i < 0 then ''-'' @ str_nat (nat (- i)) else str_nat (nat i))"

text \<open>The separator of the summaries, an em dash between two spaces, as UTF-8 bytes.\<close>

definition em_dash :: string where
  "em_dash = [CHR 0x20, CHR 0xE2, CHR 0x80, CHR 0x94, CHR 0x20]"

section \<open>Leaderboard aggregation (\<^verbatim>\<open>compute_leaders\<close>)\<close>

record tallies =
  app_sec :: "(int \<times> int) list"
  appr_sec :: "(int \<times> int) list"
  top_t :: "(int \<times> int) list"

definition no_tallies :: tallies where
  "no_tallies = \<lparr>app_sec = [], appr_sec = [], top_t = []\<rparr>"

text \<open>\<^verbatim>\<open>n.weight_applied or 1\<close>: a null weight and the weight 0 count as 1.\<close>

definition weight_or_1 :: "note_row \<Rightarrow> int" where
  "weight_or_1 n = (case weight_applied n of None \<Rightarrow> 1 | Some w \<Rightarrow> if w = 0 then 1 else w)"

text \<open>The body of \<^verbatim>\<open>for n in q\<close>: three independent updates.\<close>

definition tally_note :: "tallies \<Rightarrow> note_row \<Rightarrow> tallies" where
  "tally_note d n =
     \<lparr>app_sec = (if receiver_type n = ''student''
                  then add_count (app_sec d) (receiver_section_id n) 1 else app_sec d),
      appr_sec = (if giver_type n = ''student''
                   then add_count (appr_sec d) (giver_section_id n) (weight_or_1 n)
                   else appr_sec d),
      top_t = (if receiver_type n = ''teacher''
                then add_count (top_t d) (receiver_teacher_id n) 1 else top_t d)\<rparr>"

text \<open>
  \<^verbatim>\<open>Note.query.filter(Note.status=='approved', Note.created_at >= start,
  Note.created_at <= end).all()\<close>
\<close>

definition window_notes :: "database \<Rightarrow> datetime \<Rightarrow> datetime \<Rightarrow> note_row list" where
  "window_notes db start end' =
     filter (\<lambda>n. status n = ''approved'' \<and> dt_le start (created_at n) \<and> dt_le (created_at n) end')
       (note_table db)"

definition window_tallies :: "database \<Rightarrow> datetime \<Rightarrow> datetime \<Rightarrow> tallies" where
  "window_tallies db start end' = foldl tally_note no_tallies (window_notes db start end')"

definition sec_label :: "database \<Rightarrow> int \<Rightarrow> string" where
  "sec_label db sec_id =
     (case get_class_section db sec_id of Some sec \<Rightarrow> label sec | None \<Rightarrow> ''Unknown'')"

definition teacher_label :: "database \<Rightarrow> int \<Rightarrow> string" where
  "teacher_label db tid =
     (case get_teacher db tid of
        Some t \<Rightarrow> teacher_name t @ em_dash @ subject t
      | None \<Rightarrow> ''Unknown'')"

record leader_summary =
  top_appreciated_section :: "string option"
  top_appreciator_section :: "string option"
  top_teacher :: "string option"

definition summary_line :: "(int \<Rightarrow> string) \<Rightarrow> (int \<times> int) option \<Rightarrow> string option" where
  "summary_line lbl best =
     (case best of None \<Rightarrow> None | Some (k, v) \<Rightarrow> Some (lbl k @ em_dash @ str_int v))"

text \<open>One round of the loop over the windows: the entry \<^verbatim>\<open>out[key]\<close>.\<close>

definition window_leaders :: "database \<Rightarrow> datetime \<Rightarrow> datetime \<Rightarrow> leader_summary" where
  "window_leaders db start end' =
     (let d = window_tallies db start end';
          best_app_sec = best_of (app_sec d);
          best_appr_sec = best_of (appr_sec d);
          best_teacher = best_of (top_t d)
      in \<lparr>top_appreciated_section = summary_line (sec_label db) best_app_sec,
          top_appreciator_section = summary_line (sec_label db) best_appr_sec,
          top_teacher = summary_line (teacher_label db) best_teacher\<rparr>)"

definition compute_leaders :: "datetime \<Rightarrow> database \<Rightarrow> py_error + (string \<times> leader_summary) list" where
  "compute_leaders now db =
     (case period_ranges now of
        Inl e \<Rightarrow> Inl e
      | Inr prs \<Rightarrow> Inr (map (\<lambda>(key, start, end'). (key, window_leaders db start end')) prs))"

section \<open>Python floats\<close>

text \<open>
  A Python \<^verbatim>\<open>float\<close> is an IEEE 754 binary64 number.  A finite one is modelled by the
  rational number it denotes; every arithmetic operation computes the exact result and
  rounds it to the nearest representable number, ties to the even significand
  (\<open>rnd\<close>).  The two zeros are not told apart: no result below depends on the sign of
  a zero.
\<close>

datatype pyfloat = Finite rat | PInf | NInf | NaN

text \<open>Rounding to the nearest integer, a tie to the even one.\<close>

definition rhe :: "rat \<Rightarrow> int" where
  "rhe x =
     (let f = \<lfloor>x\<rfloor>; r = x - of_int f
      in if r < 1 / 2 then f else if 1 / 2 < r then f + 1 else if even f then f else f + 1)"

text \<open>
  The binary exponent of a non-zero number: \<open>2 powi binade x \<le> \<bar>x\<bar> < 2 powi (binade x + 1)\<close>.
  The difference of the bit lengths of numerator and denominator is that exponent or one
  more.
\<close>

definition binade :: "rat \<Rightarrow> int" where
  "binade x =
     (let (p, q) = quotient_of \<bar>x\<bar>; d = bitlen p - bitlen q
      in if 2 powi d \<le> \<bar>x\<bar> then d else d - 1)"

text \<open>
  The spacing of the binary64 numbers around \<open>x\<close>: 53 significant bits, and the fixed
  spacing \<open>2 powi (- 1074)\<close> of the subnormal numbers below \<open>2 powi (- 1022)\<close>.
\<close>

definition quantum :: "rat \<Rightarrow> rat" where
  "quantum x = 2 powi (max (binade x) (- 1022) - 52)"

definition rnd_fin :: "rat \<Rightarrow> rat" where
  "rnd_fin x = of_int (rhe (x / quantum x)) * quantum x"

text \<open>A result that rounds to \<open>2 ^ 1024\<close> or beyond overflows to an infinity.\<close>

definition rnd :: "rat \<Rightarrow> pyfloat" where
  "rnd x =
     (let y = rnd_fin x
      in if 2 ^ 1024 \<le> y then PInf else if y \<le> - (2 ^ 1024) then NInf else Finite y)"

text \<open>
  \<^verbatim>\<open>float(n)\<close> for a Python int, as the mixed operations \<^verbatim>\<open>cnt * 100.0\<close> and
  \<^verbatim>\<open>x / total\<close> apply it: correctly rounded, and \<^verbatim>\<open>OverflowError\<close> ("int too large to
  convert to float") beyond the range.
\<close>

definition float_of_nat :: "nat \<Rightarrow> py_error + pyfloat" where
  "float_of_nat n = (case rnd (of_nat n) of Finite y \<Rightarrow> Inr (Finite y) | _ \<Rightarrow> Inl OverflowError)"

fun fneg :: "pyfloat \<Rightarrow> pyfloat" where
  "fneg (Finite a) = Finite (- a)"
| "fneg PInf = NInf"
| "fneg NInf = PInf"
| "fneg NaN = NaN"

fun fadd :: "pyfloat \<Rightarrow> pyfloat \<Rightarrow> pyfloat" where
  "fadd (Finite a) (Finite b) = rnd (a + b)"
| "fadd NaN y = NaN"
| "fadd x NaN = NaN"
| "fadd PInf NInf = NaN"
| "fadd NInf PInf = NaN"
| "fadd PInf y = PInf"
| "fadd x PInf = PInf"
| "fadd NInf y = NInf"
| "fadd x NInf = NInf"

definition fsub :: "pyfloat \<Rightarrow> pyfloat \<Rightarrow> pyfloat" where
  "fsub x y = fadd x (fneg y)"

text \<open>The sign of a float as \<open>- 1\<close>, \<open>0\<close> or \<open>1\<close>; \<open>NaN\<close> has none.\<close>

fun fsign :: "pyfloat \<Rightarrow> int option" where
  "fsign (Finite a) = Some (sgn \<lfloor>sgn a\<rfloor>)"
| "fsign PInf = Some 1"
| "fsign NInf = Some (- 1)"
| "fsign NaN = None"

definition signed_inf :: "int \<Rightarrow> pyfloat" where
  "signed_inf s = (if s = 0 then NaN else if 0 < s then PInf else NInf)"

fun fmul :: "pyfloat \<Rightarrow> pyfloat \<Rightarrow> pyfloat" where
  "fmul (Finite a) (Finite b) = rnd (a * b)"
| "fmul x y =
     (case (fsign x, fsign y) of
        (Some s, Some t) \<Rightarrow> signed_inf (s * t)
      | _ \<Rightarrow> NaN)"

text \<open>
  \<^verbatim>\<open>x / y\<close>: Python raises \<^verbatim>\<open>ZeroDivisionError\<close> for a zero divisor, whatever
  the dividend.
\<close>

fun fdiv :: "pyfloat \<Rightarrow> pyfloat \<Rightarrow> py_error + pyfloat" where
  "fdiv x (Finite b) =
     (if b = 0 then Inl ZeroDivisionError
      else case x of
             Finite a \<Rightarrow> Inr (rnd (a / b))
           | NaN \<Rightarrow> Inr NaN
           | PInf \<Rightarrow> Inr (if 0 < b then PInf else NInf)
           | NInf \<Rightarrow> Inr (if 0 < b then NInf else PInf))"
| "fdiv x NaN = Inr NaN"
| "fdiv (Finite a) y = Inr (Finite 0)"
| "fdiv x y = Inr NaN"

text \<open>\<^verbatim>\<open>x > y\<close> on floats; false whenever a \<open>NaN\<close> takes part.\<close>

fun fgt :: "pyfloat \<Rightarrow> pyfloat \<Rightarrow> bool" where
  "fgt (Finite a) (Finite b) = (b < a)"
| "fgt NaN y = False"
| "fgt x NaN = False"
| "fgt PInf y = (y \<noteq> PInf)"
| "fgt x NInf = (x \<noteq> NInf)"
| "fgt x y = False"

text \<open>\<^verbatim>\<open>max(a, b)\<close> of two arguments keeps \<open>a\<close> unless \<open>b > a\<close>.\<close>

definition fmax :: "pyfloat \<Rightarrow> pyfloat \<Rightarrow> pyfloat" where
  "fmax a b = (if fgt b a then b else a)"

text \<open>
  \<^verbatim>\<open>round(x, 1)\<close>: CPython rounds the exact value of \<open>x\<close> to one decimal place, a tie
  to the even digit, and converts that decimal number back to the nearest float; an
  infinity or a \<open>NaN\<close> is returned as it is.  (The decimal value of a finite float with
  one place lies within the range again, so the conversion cannot overflow.)
\<close>

definition dec1 :: "rat \<Rightarrow> rat" where
  "dec1 x = of_int (rhe (x * 10)) / 10"

fun py_round1 :: "pyfloat \<Rightarrow> pyfloat" where
  "py_round1 (Finite x) = rnd (dec1 x)"
| "py_round1 x = x"

section \<open>Chart bars: \<^verbatim>\<open>top_four_plus_others\<close>\<close>

text \<open>
  The counts of a chart come from \<^verbatim>\<open>defaultdict(int)\<close> and \<^verbatim>\<open>+= 1\<close> only, so they are
  natural numbers.  A bucket is the dict \<^verbatim>\<open>{"label": name, "pct": pct}\<close>.
\<close>

record bar =
  bar_label :: string
  pct :: pyfloat

text \<open>\<^verbatim>\<open>total = sum(counts_map.values()) or 1\<close>\<close>

definition total_of :: "(string \<times> nat) list \<Rightarrow> nat" where
  "total_of counts_map = (let s = sum_list (map snd counts_map) in if s = 0 then 1 else s)"

text \<open>
  \<^verbatim>\<open>sorted(items, key=lambda x: x[1], reverse=True)\<close> is stable: items with equal counts
  keep their order.  \<open>sort_key\<close> is a stable insertion sort, here on the negated count.
\<close>

definition sorted_desc :: "('k \<times> nat) list \<Rightarrow> ('k \<times> nat) list" where
  "sorted_desc items = sort_key (\<lambda>x. - int (snd x)) items"

definition top_of :: "(string \<times> nat) list \<Rightarrow> (string \<times> nat) list" where
  "top_of counts_map = take 4 (sorted_desc counts_map)"

text \<open>\<^verbatim>\<open>round(cnt * 100.0 / total, 1)\<close>, left to right.\<close>

definition pct_of :: "nat \<Rightarrow> nat \<Rightarrow> py_error + pyfloat" where
  "pct_of tot cnt =
     (case float_of_nat cnt of
        Inl e \<Rightarrow> Inl e
      | Inr c \<Rightarrow>
          (case float_of_nat tot of
             Inl e \<Rightarrow> Inl e
           | Inr t \<Rightarrow>
               (case fdiv (fmul c (Finite 100)) t of
                  Inl e \<Rightarrow> Inl e
                | Inr q \<Rightarrow> Inr (py_round1 q))))"

text \<open>The loop \<^verbatim>\<open>for name, cnt in top\<close> with its two accumulators.\<close>

fun bars_loop ::
  "nat \<Rightarrow> (string \<times> nat) list \<Rightarrow> bar list \<Rightarrow> pyfloat \<Rightarrow> py_error + (bar list \<times> pyfloat)" where
  "bars_loop tot [] items acc_pct = Inr (items, acc_pct)"
| "bars_loop tot ((name, cnt) # rest) items acc_pct =
     (case pct_of tot cnt of
        Inl e \<Rightarrow> Inl e
      | Inr p \<Rightarrow>
          bars_loop tot rest (items @ [\<lparr>bar_label = name, pct = p\<rparr>]) (fadd acc_pct p))"

definition top_four_plus_others :: "(string \<times> nat) list \<Rightarrow> py_error + bar list" where
  "top_four_plus_others counts_map =
     (let tot = total_of counts_map;
          top4 = top_of counts_map
      in case bars_loop tot top4 [] (Finite 0) of
           Inl e \<Rightarrow> Inl e
         | Inr (items, acc_pct) \<Rightarrow>
             let others_pct = py_round1 (fmax (Finite 0) (fsub (Finite 100) acc_pct))
             in if fgt others_pct (Finite 0) \<and> length top4 < length counts_map
                then Inr (items @ [\<lparr>bar_label = ''Others'', pct = others_pct\<rparr>])
                else Inr items)"

section \<open>The wall, the leaders page and the certificate\<close>

text \<open>\<^verbatim>\<open>Note.query.filter_by(status='approved')\<close>\<close>

definition approved_notes :: "database \<Rightarrow> note_row list" where
  "approved_notes db = filter (\<lambda>n. status n = ''approved'') (note_table db)"

text \<open>
  \<^verbatim>\<open>order_by(Note.created_at.desc())\<close>: newest first.  The store leaves the order of
  notes with equal time stamps open; the model keeps them in table order.
\<close>

fun insert_newest :: "note_row \<Rightarrow> note_row list \<Rightarrow> note_row list" where
  "insert_newest x [] = [x]"
| "insert_newest x (y # ys) =
     (if dt_le (created_at y) (created_at x) then x # y # ys else y # insert_newest x ys)"

definition newest_first :: "note_row list \<Rightarrow> note_row list" where
  "newest_first ns = foldr insert_newest ns []"

text \<open>\<^verbatim>\<open>counts[k] += 1\<close> on a \<^verbatim>\<open>defaultdict(int)\<close>\<close>

definition bump :: "(string \<times> nat) list \<Rightarrow> string \<Rightarrow> (string \<times> nat) list" where
  "bump d k = AList.update k (dict_get d k 0 + 1) d"

record chart_counts =
  teacher_counts :: "(string \<times> nat) list"
  staff_counts :: "(string \<times> nat) list"
  student_counts :: "(string \<times> nat) list"

definition no_counts :: chart_counts where
  "no_counts = \<lparr>teacher_counts = [], staff_counts = [], student_counts = []\<rparr>"

text \<open>The name a student note is counted under, if any.\<close>

definition student_chart_label :: "database \<Rightarrow> note_row \<Rightarrow> string option" where
  "student_chart_label db n =
     (case receiver_student db n of
        Some st \<Rightarrow> Some (student_name st)
      | None \<Rightarrow>
          (case receiver_name_text n of
             Some t \<Rightarrow> if t \<noteq> [] then Some t else None
           | None \<Rightarrow> None))"

text \<open>The body of the loop that fills the three chart dicts (\<^verbatim>\<open>if / elif / elif\<close>).\<close>

definition chart_note :: "database \<Rightarrow> chart_counts \<Rightarrow> note_row \<Rightarrow> chart_counts" where
  "chart_note db c n =
     (if receiver_type n = ''teacher'' \<and> receiver_teacher db n \<noteq> None then
        (case receiver_teacher db n of
           Some t \<Rightarrow> c\<lparr>teacher_counts := bump (teacher_counts c) (teacher_name t)\<rparr>
         | None \<Rightarrow> c)
      else if receiver_type n = ''staff'' \<and> receiver_staff db n \<noteq> None then
        (case receiver_staff db n of
           Some s \<Rightarrow> c\<lparr>staff_counts := bump (staff_counts c) (staff_name s)\<rparr>
         | None \<Rightarrow> c)
      else if receiver_type n = ''student'' then
        (case student_chart_label db n of
           Some l \<Rightarrow> if l \<noteq> [] then c\<lparr>student_counts := bump (student_counts c) l\<rparr> else c
         | None \<Rightarrow> c)
      else c)"

record bars =
  teachers_bars :: "bar list"
  students_bars :: "bar list"
  staffs_bars :: "bar list"

text \<open>The dict \<^verbatim>\<open>bars\<close>: teachers, students, staffs, in this order.\<close>

definition chart_bars :: "database \<Rightarrow> note_row list \<Rightarrow> py_error + bars" where
  "chart_bars db ns =
     (let c = foldl (chart_note db) no_counts ns
      in case top_four_plus_others (teacher_counts c) of
           Inl e \<Rightarrow> Inl e
         | Inr t \<Rightarrow>
             (case top_four_plus_others (student_counts c) of
                Inl e \<Rightarrow> Inl e
              | Inr s \<Rightarrow>
                  (case top_four_plus_others (staff_counts c) of
                     Inl e \<Rightarrow> Inl e
                   | Inr f \<Rightarrow> Inr \<lparr>teachers_bars = t, students_bars = s, staffs_bars = f\<rparr>)))"

record wall_page =
  wall_notes :: "note_row list"
  wall_bars :: bars

text \<open>The route \<^verbatim>\<open>/wall\<close>: the context of \<^verbatim>\<open>wall.html\<close>.\<close>

definition wall :: "database \<Rightarrow> py_error + wall_page" where
  "wall db =
     (let ns = take 200 (newest_first (approved_notes db))
      in case chart_bars db ns of
           Inl e \<Rightarrow> Inl e
         | Inr b \<Rightarrow> Inr \<lparr>wall_notes = ns, wall_bars = b\<rparr>)"

text \<open>\<^verbatim>\<open>sorted(d.items(), key=lambda x: x[1], reverse=True)\<close> for integer values.\<close>

definition ranked :: "('k \<times> int) list \<Rightarrow> ('k \<times> int) list" where
  "ranked items = sort_key (\<lambda>x. - snd x) items"

record leaders_page =
  page_top_appreciators_section :: "(int \<times> int) list"
  page_top_appreciated_section :: "(int \<times> int) list"
  page_top_teachers :: "(int \<times> int) list"
  leaders_bars :: bars

text \<open>The route \<^verbatim>\<open>/leaders\<close>: three all-time rankings of ten and the chart bars.\<close>

definition leaders :: "database \<Rightarrow> py_error + leaders_page" where
  "leaders db =
     (let approved = approved_notes db;
          appreciator_by_section =
            foldl (\<lambda>d n. if giver_type n = ''student''
                          then add_count d (giver_section_id n) (weight_or_1 n) else d) [] approved;
          appreciated_by_section =
            foldl (\<lambda>d n. if receiver_type n = ''student''
                          then add_count d (receiver_section_id n) 1 else d) [] approved;
          top_teachers0 =
            foldl (\<lambda>d n. if receiver_type n = ''teacher''
                          then add_count d (receiver_teacher_id n) 1 else d) [] approved
      in case chart_bars db approved of
           Inl e \<Rightarrow> Inl e
         | Inr b \<Rightarrow>
             Inr \<lparr>page_top_appreciators_section = take 10 (ranked appreciator_by_section),
                  page_top_appreciated_section = take 10 (ranked appreciated_by_section),
                  page_top_teachers = take 10 (ranked top_teachers0),
                  leaders_bars = b\<rparr>)"

text \<open>
  What a view returns that is not a page of its own: a redirect to an endpoint with
  the messages flashed before it (text and category), or the certificate page with its
  context.
\<close>

datatype response =
  Redirect string "(string \<times> string) list"
| Render string
| Certificate string nat string

text \<open>\<^verbatim>\<open>counts[k] = counts.get(k, 0) + 1\<close> for the certificate's dicts.\<close>

definition count_key :: "('k \<times> int) list \<Rightarrow> 'k \<Rightarrow> ('k \<times> int) list" where
  "count_key d k = AList.update k (dict_get d k 0 + 1) d"

definition teacher_cert_counts :: "database \<Rightarrow> (string \<times> int) list" where
  "teacher_cert_counts db =
     foldl (\<lambda>counts n.
         if receiver_type n = ''teacher'' then
           (case receiver_teacher db n of
              Some t \<Rightarrow> count_key counts (teacher_name t)
            | None \<Rightarrow> counts)
         else counts) [] (approved_notes db)"

definition staff_cert_counts :: "database \<Rightarrow> (string \<times> int) list" where
  "staff_cert_counts db =
     foldl (\<lambda>counts n.
         if receiver_type n = ''staff'' then
           (case receiver_staff db n of
              Some s \<Rightarrow> count_key counts (staff_name s)
            | None \<Rightarrow> counts)
         else counts) [] (approved_notes db)"

definition section_cert_counts :: "database \<Rightarrow> (int \<times> int) list" where
  "section_cert_counts db =
     foldl (\<lambda>counts n.
         if receiver_type n = ''student'' then add_count counts (receiver_section_id n) 1
         else counts) [] (approved_notes db)"

text \<open>\<^verbatim>\<open>items[rank-1][0] if len(items) >= rank else None\<close>, for a rank of 1, 2 or 3.\<close>

definition rank_key :: "('k \<times> int) list \<Rightarrow> nat \<Rightarrow> 'k option" where
  "rank_key items rank = (if rank \<le> length items then Some (fst (items ! (rank - 1))) else None)"

text \<open>The label of the certificate; \<^verbatim>\<open>None\<close> when there is none.\<close>

definition certificate_label :: "database \<Rightarrow> string \<Rightarrow> nat \<Rightarrow> string option" where
  "certificate_label db category rank =
     (if category = ''teacher'' then rank_key (ranked (teacher_cert_counts db)) rank
      else if category = ''staff'' then rank_key (ranked (staff_cert_counts db)) rank
      else
        (case rank_key (ranked (section_cert_counts db)) rank of
           Some sec_id \<Rightarrow>
             (case get_class_section db sec_id of Some sec \<Rightarrow> Some (label sec) | None \<Rightarrow> None)
         | None \<Rightarrow> None))"

definition not_enough_data :: response where
  "not_enough_data =
     Redirect ''leaders'' [(''Not enough data for this certificate.'', ''error'')]"

text \<open>
  The route \<^verbatim>\<open>/certificate/<category>/<int:rank>\<close>.  \<^verbatim>\<open>if not label\<close> holds for
  \<^verbatim>\<open>None\<close> and for the empty string.
\<close>

definition certificate :: "database \<Rightarrow> string \<Rightarrow> nat \<Rightarrow> response" where
  "certificate db category rank =
     (if category \<notin> {''teacher'', ''staff'', ''student_section''} \<or> rank \<notin> {1, 2, 3}
      then Redirect ''leaders'' []
      else
        (case certificate_label db category rank of
           None \<Rightarrow> not_enough_data
         | Some l \<Rightarrow> if l = [] then not_enough_data else Certificate category rank l))"

section \<open>Submitting notes\<close>

text \<open>
  A request is its method and its form.  \<^verbatim>\<open>request.form.get(key)\<close> is the first value
  sent under the key, or \<^verbatim>\<open>None\<close>.  Strings are byte strings here, so only the ASCII
  white space of \<^verbatim>\<open>str.strip\<close> and only ASCII digits of \<^verbatim>\<open>int\<close> are modelled.
\<close>

record request =
  request_method :: string
  form :: "(string \<times> string) list"

definition form_get :: "request \<Rightarrow> string \<Rightarrow> string option" where
  "form_get req key = map_of (form req) key"

definition is_space :: "char \<Rightarrow> bool" where
  "is_space c = (of_char c \<in> {9, 10, 11, 12, 13, 28, 29, 30, 31, 32 :: nat})"

definition strip :: "string \<Rightarrow> string" where
  "strip s = rev (dropWhile is_space (rev (dropWhile is_space s)))"

text \<open>\<^verbatim>\<open>x or ''\<close> and \<^verbatim>\<open>x or None\<close> for an optional string, and its truth value.\<close>

definition or_empty :: "string option \<Rightarrow> string" where
  "or_empty x = (case x of None \<Rightarrow> [] | Some v \<Rightarrow> v)"

definition or_none :: "string option \<Rightarrow> string option" where
  "or_none x = (case x of None \<Rightarrow> None | Some v \<Rightarrow> if v = [] then None else Some v)"

definition truthy :: "string option \<Rightarrow> bool" where
  "truthy x = (or_none x \<noteq> None)"

definition is_digit :: "char \<Rightarrow> bool" where
  "is_digit c = (48 \<le> (of_char c :: nat) \<and> (of_char c :: nat) \<le> 57)"

text \<open>
  The digits of \<^verbatim>\<open>int(s)\<close>: at least one digit, single underscores allowed between
  digits.  The flag tells whether the character before was a digit.
\<close>

fun parse_digits :: "bool \<Rightarrow> nat \<Rightarrow> string \<Rightarrow> nat option" where
  "parse_digits prev acc [] = (if prev then Some acc else None)"
| "parse_digits prev acc (c # cs) =
     (if is_digit c then parse_digits True (10 * acc + (of_char c - 48)) cs
      else if c = CHR ''_'' \<and> prev then parse_digits False acc cs
      else None)"

text \<open>
  \<^verbatim>\<open>int(s)\<close> skips less white space than \<^verbatim>\<open>str.strip\<close>: on an ASCII string only the
  characters 9 to 13 and the space, so that \<^verbatim>\<open>int\<close> of a string that starts with one of
  the separators 28 to 31 is a \<^verbatim>\<open>ValueError\<close>.
\<close>

definition is_int_space :: "char \<Rightarrow> bool" where
  "is_int_space c = (of_char c \<in> {9, 10, 11, 12, 13, 32 :: nat})"

definition int_strip :: "string \<Rightarrow> string" where
  "int_strip s = rev (dropWhile is_int_space (rev (dropWhile is_int_space s)))"

text \<open>
  \<^verbatim>\<open>int(s)\<close> for a string: white space around, an optional sign, the digits;
  \<^verbatim>\<open>ValueError\<close> otherwise.
\<close>

definition py_int :: "string \<Rightarrow> py_error + int" where
  "py_int s =
     (case int_strip s of
        [] \<Rightarrow> Inl ValueError
      | c # cs \<Rightarrow>
          (if c = CHR ''-'' then
             (case parse_digits False 0 cs of None \<Rightarrow> Inl ValueError | Some n \<Rightarrow> Inr (- int n))
           else if c = CHR ''+'' then
             (case parse_digits False 0 cs of None \<Rightarrow> Inl ValueError | Some n \<Rightarrow> Inr (int n))
           else
             (case parse_digits False 0 (c # cs) of
                None \<Rightarrow> Inl ValueError
              | Some n \<Rightarrow> Inr (int n))))"

text \<open>\<^verbatim>\<open>int(x) if x else None\<close>\<close>

definition py_int_opt :: "string option \<Rightarrow> py_error + int option" where
  "py_int_opt x =
     (case or_none x of
        None \<Rightarrow> Inr None
      | Some v \<Rightarrow> (case py_int v of Inl e \<Rightarrow> Inl e | Inr i \<Rightarrow> Inr (Some i)))"

text \<open>The key the store gives a new row: one more than the largest key in use.\<close>

definition new_note_id :: "database \<Rightarrow> int" where
  "new_note_id db = foldr max (map note_id (note_table db)) 0 + 1"

text \<open>\<^verbatim>\<open>db.session.add(note); db.session.commit()\<close>\<close>

definition add_note :: "database \<Rightarrow> note_row \<Rightarrow> database" where
  "add_note db n = db\<lparr>note_table := note_table db @ [n]\<rparr>"

definition en_dash :: string where
  "en_dash = [CHR 0xE2, CHR 0x80, CHR 0x93]"

definition flash_error :: "string \<Rightarrow> string \<Rightarrow> response" where
  "flash_error endpoint msg = Redirect endpoint [(msg, ''error'')]"

definition thanks :: response where
  "thanks =
     Redirect ''wall'' [(''Thanks! Your appreciation is pending admin approval.'', ''ok'')]"

subsection \<open>The three routes of \<^verbatim>\<open>app.py\<close>\<close>

text \<open>
  The weight of a note to a student: 2 when a student gives the note and
  \<^verbatim>\<open>str(giver_section_id) != str(receiver_section_id)\<close>, the two submitted values
  compared as strings; else 1.
\<close>

definition py_str :: "string option \<Rightarrow> string" where
  "py_str x = (case x of None \<Rightarrow> ''None'' | Some v \<Rightarrow> v)"

definition student_weight :: "string \<Rightarrow> string option \<Rightarrow> string option \<Rightarrow> int" where
  "student_weight giver_type0 giver_section receiver_section =
     (if giver_type0 = ''student'' \<and> truthy giver_section
      then (if py_str giver_section \<noteq> py_str receiver_section then 2 else 1)
      else 1)"

definition post_student ::
  "datetime \<Rightarrow> request \<Rightarrow> database \<Rightarrow> py_error + (response \<times> database)" where
  "post_student now req db =
     (if request_method req = ''POST'' then
        (let giver_type0 =
               strip (case form_get req ''giver_type'' of None \<Rightarrow> ''student'' | Some v \<Rightarrow> v);
             giver_name0 = strip (or_empty (form_get req ''giver_name''));
             giver_section = or_none (form_get req ''giver_section_id'');
             receiver_name = strip (or_empty (form_get req ''receiver_name''));
             receiver_section = form_get req ''receiver_section_id'';
             msg = strip (or_empty (form_get req ''message''))
         in if giver_type0 = ''teacher'' \<and> giver_name0 = [] then
              Inr (flash_error ''post_student'' ''Teacher name is required.'', db)
            else if giver_type0 = ''student'' \<and> \<not> truthy giver_section then
              Inr (flash_error ''post_student''
                     (''Please select your own Class'' @ en_dash @ ''Section.''), db)
            else if receiver_name = [] \<or> \<not> truthy receiver_section then
              Inr (flash_error ''post_student''
                     (''Please enter the student name and select their Class'' @ en_dash
                      @ ''Section.''), db)
            else if msg = [] then
              Inr (flash_error ''post_student'' ''Please write a short appreciation message.'',
                   db)
            else
              (let giver_name1 =
                     (if giver_type0 = ''student'' \<and> giver_name0 = [] then ''Anonymous''
                      else giver_name0);
                   weight = student_weight giver_type0 giver_section receiver_section
               in case py_int_opt giver_section of
                    Inl e \<Rightarrow> Inl e
                  | Inr gsec \<Rightarrow>
                      (case py_int (or_empty receiver_section) of
                         Inl e \<Rightarrow> Inl e
                       | Inr rsec \<Rightarrow>
                           Inr (thanks,
                                add_note db
                                  \<lparr>note_id = new_note_id db, giver_type = giver_type0,
                                   giver_name = Some giver_name1, giver_section_id = gsec,
                                   receiver_type = ''student'', message = msg,
                                   receiver_name_text = Some receiver_name,
                                   receiver_section_id = Some rsec,
                                   receiver_student_id = None, receiver_teacher_id = None,
                                   receiver_staff_id = None, weight_applied = Some weight,
                                   status = ''pending'', created_at = now\<rparr>))))
      else Inr (Render ''post_student.html'', db))"

definition post_teacher ::
  "datetime \<Rightarrow> request \<Rightarrow> database \<Rightarrow> py_error + (response \<times> database)" where
  "post_teacher now req db =
     (if request_method req = ''POST'' then
        (let giver_type0 =
               strip (case form_get req ''giver_type'' of None \<Rightarrow> ''student'' | Some v \<Rightarrow> v);
             giver_name0 = strip (or_empty (form_get req ''giver_name''));
             giver_section = or_none (form_get req ''giver_section_id'');
             teacher_id0 = form_get req ''teacher_id'';
             msg = strip (or_empty (form_get req ''message''))
         in if giver_type0 = ''teacher'' \<and> giver_name0 = [] then
              Inr (flash_error ''post_teacher'' ''Teacher name is required.'', db)
            else if giver_type0 = ''student'' \<and> \<not> truthy giver_section then
              Inr (flash_error ''post_teacher''
                     (''Please select your Class'' @ en_dash @ ''Section.''), db)
            else if \<not> truthy teacher_id0 \<or> msg = [] then
              Inr (flash_error ''post_teacher'' ''Please select a teacher and write a message.'',
                   db)
            else
              (let giver_name1 =
                     (if giver_type0 = ''student'' \<and> giver_name0 = [] then ''Anonymous''
                      else giver_name0)
               in case py_int_opt giver_section of
                    Inl e \<Rightarrow> Inl e
                  | Inr gsec \<Rightarrow>
                      (case py_int (or_empty teacher_id0) of
                         Inl e \<Rightarrow> Inl e
                       | Inr tid \<Rightarrow>
                           Inr (thanks,
                                add_note db
                                  \<lparr>note_id = new_note_id db, giver_type = giver_type0,
                                   giver_name = Some giver_name1, giver_section_id = gsec,
                                   receiver_type = ''teacher'', message = msg,
                                   receiver_name_text = None, receiver_section_id = None,
                                   receiver_student_id = None, receiver_teacher_id = Some tid,
                                   receiver_staff_id = None, weight_applied = Some 1,
                                   status = ''pending'', created_at = now\<rparr>))))
      else Inr (Render ''post_teacher.html'', db))"

definition post_staff ::
  "datetime \<Rightarrow> request \<Rightarrow> database \<Rightarrow> py_error + (response \<times> database)" where
  "post_staff now req db =
     (if request_method req = ''POST'' then
        (let giver_type0 =
               strip (case form_get req ''giver_type'' of None \<Rightarrow> ''student'' | Some v \<Rightarrow> v);
             giver_name0 = strip (or_empty (form_get req ''giver_name''));
             giver_section = or_none (form_get req ''giver_section_id'');
             staff_id0 = form_get req ''staff_id'';
             msg = strip (or_empty (form_get req ''message''))
         in if giver_type0 = ''teacher'' \<and> giver_name0 = [] then
              Inr (flash_error ''post_staff'' ''Teacher name is required.'', db)
            else if giver_type0 = ''student'' \<and> \<not> truthy giver_section then
              Inr (flash_error ''post_staff''
                     (''Please select your Class'' @ en_dash @ ''Section.''), db)
            else if \<not> truthy staff_id0 \<or> msg = [] then
              Inr (flash_error ''post_staff''
                     ''Please select a staff member and write a message.'', db)
            else
              (let giver_name1 =
                     (if giver_type0 = ''student'' \<and> giver_name0 = [] then ''Anonymous''
                      else giver_name0)
               in case py_int_opt giver_section of
                    Inl e \<Rightarrow> Inl e
                  | Inr gsec \<Rightarrow>
                      (case py_int (or_empty staff_id0) of
                         Inl e \<Rightarrow> Inl e
                       | Inr sid \<Rightarrow>
                           Inr (thanks,
                                add_note db
                                  \<lparr>note_id = new_note_id db, giver_type = giver_type0,
                                   giver_name = Some giver_name1, giver_section_id = gsec,
                                   receiver_type = ''staff'', message = msg,
                                   receiver_name_text = None, receiver_section_id = None,
                                   receiver_student_id = None, receiver_teacher_id = None,
                                   receiver_staff_id = Some sid, weight_applied = Some 1,
                                   status = ''pending'', created_at = now\<rparr>))))
      else Inr (Render ''post_staff.html'', db))"

subsection \<open>The three routes of \<^verbatim>\<open>r.py\<close>\<close>

text \<open>
  The variant in \<^verbatim>\<open>r.py\<close> hands the submitted strings to the \<^verbatim>\<open>Note\<close> constructor
  as they are, so the row it adds is recorded with string-valued keys.  A view returns
  its response and the note it committed, if it committed one.
\<close>

record r_note =
  r_giver_type :: string
  r_giver_name :: string
  r_giver_section_id :: "string option"
  r_receiver_type :: string
  r_receiver_name_text :: "string option"
  r_receiver_section_id :: "string option"
  r_receiver_teacher_id :: "string option"
  r_receiver_staff_id :: "string option"
  r_message :: string
  r_weight_applied :: int
  r_status :: string

definition r_giver_name_of :: "string \<Rightarrow> string \<Rightarrow> string" where
  "r_giver_name_of giver_type0 giver_name0 =
     (if giver_name0 \<noteq> [] then giver_name0
      else if giver_type0 = ''student'' then ''Anonymous'' else [])"

definition r_posted :: response where
  "r_posted = Redirect ''wall'' [(''Note posted successfully and pending approval.'', ''success'')]"

definition r_post_student :: "request \<Rightarrow> response \<times> r_note option" where
  "r_post_student req =
     (if request_method req = ''POST'' then
        (let giver_type0 =
               strip (case form_get req ''giver_type'' of None \<Rightarrow> ''student'' | Some v \<Rightarrow> v);
             giver_name0 = strip (or_empty (form_get req ''giver_name''));
             giver_section = form_get req ''giver_section_id''
         in if giver_type0 = ''teacher'' \<and> giver_name0 = [] then
              (flash_error ''post_student'' ''Teacher giver must provide a name.'', None)
            else
              (let receiver_name = strip (or_empty (form_get req ''receiver_name''));
                   receiver_section = form_get req ''receiver_section_id'';
                   msg = strip (or_empty (form_get req ''message''))
               in if receiver_name = [] \<or> msg = [] then
                    (flash_error ''post_student'' ''Receiver name and message are required.'',
                     None)
                  else
                    (let weight =
                           (if giver_type0 = ''student'' \<and> truthy giver_section
                               \<and> truthy receiver_section \<and> giver_section \<noteq> receiver_section
                            then 2 else 1)
                     in (r_posted,
                         Some \<lparr>r_giver_type = giver_type0,
                               r_giver_name = r_giver_name_of giver_type0 giver_name0,
                               r_giver_section_id = giver_section,
                               r_receiver_type = ''student'',
                               r_receiver_name_text = Some receiver_name,
                               r_receiver_section_id = receiver_section,
                               r_receiver_teacher_id = None, r_receiver_staff_id = None,
                               r_message = msg, r_weight_applied = weight,
                               r_status = ''pending''\<rparr>))))
      else (Render ''post_student.html'', None))"

definition r_post_teacher :: "request \<Rightarrow> response \<times> r_note option" where
  "r_post_teacher req =
     (if request_method req = ''POST'' then
        (let giver_type0 =
               strip (case form_get req ''giver_type'' of None \<Rightarrow> ''student'' | Some v \<Rightarrow> v);
             giver_name0 = strip (or_empty (form_get req ''giver_name''));
             giver_section = form_get req ''giver_section_id''
         in if giver_type0 = ''teacher'' \<and> giver_name0 = [] then
              (flash_error ''post_teacher'' ''Teacher giver must provide a name.'', None)
            else
              (let receiver_teacher_id0 = form_get req ''receiver_teacher_id'';
                   msg = strip (or_empty (form_get req ''message''))
               in if \<not> truthy receiver_teacher_id0 \<or> msg = [] then
                    (flash_error ''post_teacher'' ''Receiver teacher and message are required.'',
                     None)
                  else
                    (r_posted,
                     Some \<lparr>r_giver_type = giver_type0,
                           r_giver_name = r_giver_name_of giver_type0 giver_name0,
                           r_giver_section_id = giver_section,
                           r_receiver_type = ''teacher'',
                           r_receiver_name_text = None, r_receiver_section_id = None,
                           r_receiver_teacher_id = receiver_teacher_id0,
                           r_receiver_staff_id = None,
                           r_message = msg, r_weight_applied = 1,
                           r_status = ''pending''\<rparr>)))
      else (Render ''post_teacher.html'', None))"

definition r_post_staff :: "request \<Rightarrow> response \<times> r_note option" where
  "r_post_staff req =
     (if request_method req = ''POST'' then
        (let giver_type0 =
               strip (case form_get req ''giver_type'' of None \<Rightarrow> ''student'' | Some v \<Rightarrow> v);
             giver_name0 = strip (or_empty (form_get req ''giver_name''));
             giver_section = form_get req ''giver_section_id''
         in if giver_type0 = ''teacher'' \<and> giver_name0 = [] then
              (flash_error ''post_staff'' ''Teacher giver must provide a name.'', None)
            else
              (let receiver_staff_id0 = form_get req ''receiver_staff_id'';
                   msg = strip (or_empty (form_get req ''message''))
               in if \<not> truthy receiver_staff_id0 \<or> msg = [] then
                    (flash_error ''post_staff'' ''Receiver staff and message are required.'',
                     None)
                  else
                    (r_posted,
                     Some \<lparr>r_giver_type = giver_type0,
                           r_giver_name = r_giver_name_of giver_type0 giver_name0,
                           r_giver_section_id = giver_section,
                           r_receiver_type = ''staff'',
                           r_receiver_name_text = None, r_receiver_section_id = None,
                           r_receiver_teacher_id = None,
                           r_receiver_staff_id = receiver_staff_id0,
                           r_message = msg, r_weight_applied = 1,
                           r_status = ''pending''\<rparr>)))
      else (Render ''post_staff.html'', None))"

section \<open>Reading the claims\<close>





subsection \<open>Example data\<close>

definition at_noon :: "nat \<Rightarrow> nat \<Rightarrow> nat \<Rightarrow> datetime" where
  "at_noon y m d =
     \<lparr>year = y, month = m, day = d, hour = 12, minute = 0, second = 0, microsecond = 0\<rparr>"

definition student_note ::
  "int \<Rightarrow> string \<Rightarrow> int \<Rightarrow> string \<Rightarrow> int \<Rightarrow> int \<Rightarrow> string \<Rightarrow> datetime \<Rightarrow> note_row" where
  "student_note i giver gsec receiver rsec w st t =
     \<lparr>note_id = i, giver_type = ''student'', giver_name = Some giver,
      giver_section_id = Some gsec, receiver_type = ''student'', message = ''Thank you'',
      receiver_name_text = Some receiver, receiver_section_id = Some rsec,
      receiver_student_id = None, receiver_teacher_id = None, receiver_staff_id = None,
      weight_applied = Some w, status = st, created_at = t\<rparr>"

definition seed_db :: "note_row list \<Rightarrow> database" where
  "seed_db ns =
     \<lparr>class_sections =
        [\<lparr>cs_id = 1, class_name = ''6'', section_name = ''A''\<rparr>,
         \<lparr>cs_id = 2, class_name = ''7'', section_name = ''A''\<rparr>,
         \<lparr>cs_id = 3, class_name = ''7'', section_name = ''B''\<rparr>,
         \<lparr>cs_id = 4, class_name = ''8'', section_name = ''A''\<rparr>,
         \<lparr>cs_id = 5, class_name = ''8'', section_name = ''B''\<rparr>],
      students = [],
      teachers =
        [\<lparr>teacher_id = 1, teacher_name = ''Mr. Rahman'', subject = ''Mathematics''\<rparr>,
         \<lparr>teacher_id = 2, teacher_name = ''Ms. Ayesha'', subject = ''English''\<rparr>,
         \<lparr>teacher_id = 3, teacher_name = ''Mr. Kabir'', subject = ''Science''\<rparr>,
         \<lparr>teacher_id = 4, teacher_name = ''Mrs. Sultana'', subject = ''Bangla''\<rparr>],
      staffs =
        [\<lparr>staff_id = 1, staff_name = ''Anwar'', staff_role = ''Security''\<rparr>,
         \<lparr>staff_id = 2, staff_name = ''Rina'', staff_role = ''Cleaning''\<rparr>,
         \<lparr>staff_id = 3, staff_name = ''Masud'', staff_role = ''Office Assistant''\<rparr>],
      note_table = ns\<rparr>"



definition student_form :: "string \<Rightarrow> string \<Rightarrow> request" where
  "student_form g r =
     \<lparr>request_method = ''POST'',
      form = [(''giver_type'', ''student''), (''giver_name'', ''A''),
              (''giver_section_id'', g), (''receiver_name'', ''C''),
              (''receiver_section_id'', r), (''message'', ''Thank you'')]\<rparr>"

definition teacher_form :: request where
  "teacher_form =
     \<lparr>request_method = ''POST'',
      form = [(''giver_type'', ''student''), (''giver_section_id'', ''1''),
              (''teacher_id'', ''2''), (''receiver_teacher_id'', ''2''),
              (''message'', ''Thank you'')]\<rparr>"

definition staff_form :: request where
  "staff_form =
     \<lparr>request_method = ''POST'',
      form = [(''giver_type'', ''teacher''), (''giver_name'', ''Ms. Ayesha''),
              (''staff_id'', ''3''), (''receiver_staff_id'', ''3''),
              (''message'', ''Thank you'')]\<rparr>"

definition agree_on_approved :: "database \<Rightarrow> database \<Rightarrow> bool" where
  "agree_on_approved a b =
     (class_sections a = class_sections b \<and> students a = students b \<and>
      teachers a = teachers b \<and> staffs a = staffs b \<and>
      approved_notes a = approved_notes b)"

definition teacher_note :: "int \<Rightarrow> int \<Rightarrow> string \<Rightarrow> datetime \<Rightarrow> note_row" where
  "teacher_note i tid st t =
     \<lparr>note_id = i, giver_type = ''student'', giver_name = Some ''Anonymous'',
      giver_section_id = Some 1, receiver_type = ''teacher'', message = ''Thank you'',
      receiver_name_text = None, receiver_section_id = None,
      receiver_student_id = None, receiver_teacher_id = Some tid, receiver_staff_id = None,
      weight_applied = Some 1, status = st, created_at = t\<rparr>"

definition staff_note :: "int \<Rightarrow> int \<Rightarrow> string \<Rightarrow> datetime \<Rightarrow> note_row" where
  "staff_note i sid st t =
     \<lparr>note_id = i, giver_type = ''teacher'', giver_name = Some ''Ms. Ayesha'',
      giver_section_id = None, receiver_type = ''staff'', message = ''Thank you'',
      receiver_name_text = None, receiver_section_id = None,
      receiver_student_id = None, receiver_teacher_id = None, receiver_staff_id = Some sid,
      weight_applied = Some 1, status = st, created_at = t\<rparr>"

definition approved_part :: "note_row list" where
  "approved_part =
     [teacher_note 1 2 ''approved'' (at_noon 2025 9 1),
      teacher_note 2 1 ''approved'' (at_noon 2025 9 2),
      teacher_note 3 1 ''approved'' (at_noon 2025 9 3),
      staff_note 4 3 ''approved'' (at_noon 2025 9 4),
      student_note 5 ''A'' 1 ''C'' 2 2 ''approved'' (at_noon 2025 9 5)]"

definition mixed_db :: database where
  "mixed_db =
     seed_db (teacher_note 6 3 ''pending'' (at_noon 2025 9 6) # approved_part @
              [student_note 7 ''B'' 2 ''D'' 1 2 ''hidden'' (at_noon 2025 9 7),
               staff_note 8 1 ''pending'' (at_noon 2025 9 8)])"





text \<open>
  A list of entries ranks a dict by count: the same entries, the largest count first,
  entries of equal count in the order of the dict.
\<close>

definition ranks :: "('k \<times> 'v::linorder) list \<Rightarrow> ('k \<times> 'v) list \<Rightarrow> bool" where
  "ranks items d =
     (sorted_wrt (\<lambda>a b. snd b \<le> snd a) items \<and> set items = set d \<and>
      length items = length d \<and>
      (\<forall>v. filter (\<lambda>x. snd x = v) items = filter (\<lambda>x. snd x = v) d))"


subsection \<open>Reading the chart\<close>

text \<open>
  The exact percentage of a count, and the one-decimal number that the chart shows for it:
  the quotient is rounded to a double, and the double to one decimal.
\<close>

definition exact_pct :: "nat \<Rightarrow> nat \<Rightarrow> rat" where
  "exact_pct tot cnt = of_nat cnt * 100 / of_nat tot"

definition shown_pct :: "nat \<Rightarrow> nat \<Rightarrow> rat" where
  "shown_pct tot cnt = dec1 (rnd_fin (exact_pct tot cnt))"

text \<open>The bar of an entry, and the sum of the one-decimal numbers of some entries.\<close>

definition shown_bar :: "nat \<Rightarrow> string \<times> nat \<Rightarrow> bar" where
  "shown_bar tot x = \<lparr>bar_label = fst x, pct = rnd (shown_pct tot (snd x))\<rparr>"

definition shown_sum :: "nat \<Rightarrow> (string \<times> nat) list \<Rightarrow> rat" where
  "shown_sum tot items = sum_list (map (\<lambda>x. shown_pct tot (snd x)) items)"

text \<open>The value of a finite percentage.\<close>

definition pct_value :: "bar \<Rightarrow> rat" where
  "pct_value b = (case pct b of Finite x \<Rightarrow> x | _ \<Rightarrow> 0)"

text \<open>Three dicts of counts: the example of the specification, four close counts, two teachers.\<close>

definition teacher_example :: "(string \<times> nat) list" where
  "teacher_example = [(''T1'', 10), (''T2'', 7), (''T3'', 5), (''T4'', 3), (''T5'', 1)]"

definition four_ties :: "(string \<times> nat) list" where
  "four_ties = [(''b'', 99), (''a'', 103), (''c'', 99), (''d'', 99)]"

definition two_teachers :: "(string \<times> nat) list" where
  "two_teachers = [(''Ms. Ayesha'', 1), (''Mr. Rahman'', 2)]"

text \<open>The number of notes that the three chart dicts have counted.\<close>

definition counted :: "chart_counts \<Rightarrow> nat" where
  "counted c = sum_list (map snd (teacher_counts c)) + sum_list (map snd (staff_counts c)) +
     sum_list (map snd (student_counts c))"

section \<open>Properties of the aggregation\<close>














lemma best_of_None: "best_of d = None \<longleftrightarrow> d = []"
  by (simp add: best_of_def split: list.splits)






lemma prev_day_month: "1 < month d \<Longrightarrow> \<exists>d'. prev_day d = Inr d' \<and> month d - 1 \<le> month d' \<and> year d' = year d"
  by (simp add: prev_day_def)

lemma minus_days_month: "n < month d \<Longrightarrow> \<exists>d'. minus_days d n = Inr d'"
proof (induction n arbitrary: d)
  case 0
  then show ?case by simp
next
  case (Suc n)
  then have "1 < month d" by simp
  from prev_day_month [OF this] obtain d' where d': "prev_day d = Inr d'" "month d - 1 \<le> month d'"
    by blast
  with Suc.prems have "n < month d'" by simp
  from Suc.IH [OF this] d' show ?case by simp
qed

lemma minus_days_year: "1 < year d \<Longrightarrow> n \<le> 12 \<Longrightarrow> \<exists>d'. minus_days d n = Inr d'"
proof (induction n arbitrary: d)
  case 0
  then show ?case by simp
next
  case (Suc n)
  consider (day) "1 < day d" | (month) "\<not> 1 < day d" "1 < month d"
    | (year) "\<not> 1 < day d" "\<not> 1 < month d"
    by blast
  then show ?case
  proof cases
    case day
    then have "prev_day d = Inr (d\<lparr>day := day d - 1\<rparr>)" by (simp add: prev_day_def)
    moreover have "\<exists>d'. minus_days (d\<lparr>day := day d - 1\<rparr>) n = Inr d'"
      using Suc by simp
    ultimately show ?thesis by simp
  next
    case month
    then have "prev_day d = Inr (d\<lparr>month := month d - 1, day := days_in_month (year d) (month d - 1)\<rparr>)"
      by (simp add: prev_day_def)
    moreover have "\<exists>d'. minus_days (d\<lparr>month := month d - 1, day := days_in_month (year d) (month d - 1)\<rparr>) n = Inr d'"
      using Suc by simp
    ultimately show ?thesis by simp
  next
    case year
    with Suc.prems have "prev_day d = Inr (d\<lparr>year := year d - 1, month := 12, day := 31\<rparr>)"
      by (simp add: prev_day_def)
    moreover have "\<exists>d'. minus_days (d\<lparr>year := year d - 1, month := 12, day := 31\<rparr>) n = Inr d'"
      using Suc.prems by (intro minus_days_month) simp
    ultimately show ?thesis by simp
  qed
qed

lemma summary_line_None: "summary_line lbl b = None \<longleftrightarrow> b = None"
  by (simp add: summary_line_def split: option.splits prod.splits)

text \<open>
  Claim C8.  When the frequency mapping of a category over a window is empty, the
  summary of that window has no winner for the category (\<^verbatim>\<open>None\<close>), and no error is
  raised: the summary is a value for every window, and \<^verbatim>\<open>compute_leaders\<close> returns
  the four summaries whenever the clock is past the year 1.
\<close>

theorem empty_mapping_no_winner:
  "(app_sec (window_tallies db start end') = [] \<longrightarrow>
      top_appreciated_section (window_leaders db start end') = None) \<and>
   (appr_sec (window_tallies db start end') = [] \<longrightarrow>
      top_appreciator_section (window_leaders db start end') = None) \<and>
   (top_t (window_tallies db start end') = [] \<longrightarrow>
      top_teacher (window_leaders db start end') = None) \<and>
   (1 < year now \<longrightarrow>
      (\<exists>prs. period_ranges now = Inr prs \<and> map fst prs = [''weekly'', ''monthly'', ''yearly'', ''alltime''] \<and>
         compute_leaders now db =
           Inr (map (\<lambda>(key, start, end'). (key, window_leaders db start end')) prs)))"
proof -
  have "\<exists>prs. period_ranges now = Inr prs \<and> map fst prs = [''weekly'', ''monthly'', ''yearly'', ''alltime''] \<and>
         compute_leaders now db =
           Inr (map (\<lambda>(key, start, end'). (key, window_leaders db start end')) prs)"
    if "1 < year now"
  proof -
    from minus_days_year [OF that, of 7] obtain w where "minus_days now 7 = Inr w" by auto
    then show ?thesis by (simp add: period_ranges_def compute_leaders_def Let_def)
  qed
  then show ?thesis
    by (simp add: window_leaders_def Let_def summary_line_None best_of_None)
qed

theorem empty_mapping_no_winner_witness:
  "app_sec (window_tallies (seed_db []) epoch (at_noon 2025 9 10)) = [] \<and>
   appr_sec (window_tallies (seed_db []) epoch (at_noon 2025 9 10)) = [] \<and>
   top_t (window_tallies (seed_db []) epoch (at_noon 2025 9 10)) = [] \<and>
   window_leaders (seed_db []) epoch (at_noon 2025 9 10) =
     \<lparr>top_appreciated_section = None, top_appreciator_section = None, top_teacher = None\<rparr> \<and>
   (\<exists>out. compute_leaders (at_noon 2025 9 10) (seed_db []) = Inr out)"
proof -
  let ?db = "seed_db []" and ?now = "at_noon 2025 9 10"
  have e: "app_sec (window_tallies ?db epoch ?now) = []"
    "appr_sec (window_tallies ?db epoch ?now) = []"
    "top_t (window_tallies ?db epoch ?now) = []"
    by code_simp+
  have y: "1 < year ?now" by (simp add: at_noon_def)
  from empty_mapping_no_winner [of ?db epoch ?now ?now] e y
  have "top_appreciated_section (window_leaders ?db epoch ?now) = None"
    "top_appreciator_section (window_leaders ?db epoch ?now) = None"
    "top_teacher (window_leaders ?db epoch ?now) = None"
    "\<exists>out. compute_leaders ?now ?db = Inr out"
    by blast+
  with e show ?thesis
    by (cases "window_leaders ?db epoch ?now") simp
qed

section \<open>Properties of the submission routes\<close>

lemma post_student_pending:
  assumes "post_student now req db = Inr (resp, db')"
  shows "db' = db \<or> (\<exists>n. db' = add_note db n \<and> status n = ''pending'')"
  using assms unfolding post_student_def Let_def
  by (auto split: if_splits sum.splits)

lemma post_teacher_pending:
  assumes "post_teacher now req db = Inr (resp, db')"
  shows "db' = db \<or> (\<exists>n. db' = add_note db n \<and> status n = ''pending'')"
  using assms unfolding post_teacher_def Let_def
  by (auto split: if_splits sum.splits)

lemma post_staff_pending:
  assumes "post_staff now req db = Inr (resp, db')"
  shows "db' = db \<or> (\<exists>n. db' = add_note db n \<and> status n = ''pending'')"
  using assms unfolding post_staff_def Let_def
  by (auto split: if_splits sum.splits)

lemma r_post_pending:
  "r_post_student req = (resp, Some rn) \<Longrightarrow> r_status rn = ''pending''"
  "r_post_teacher req = (resp, Some rn) \<Longrightarrow> r_status rn = ''pending''"
  "r_post_staff req = (resp, Some rn) \<Longrightarrow> r_status rn = ''pending''"
  unfolding r_post_student_def r_post_teacher_def r_post_staff_def Let_def
  by (auto split: if_splits)

text \<open>
  Claim C10.  Whatever the form, each of the three submission routes of \<^verbatim>\<open>app.py\<close>
  either leaves the table of notes as it is or appends exactly one note whose status is
  \<^verbatim>\<open>'pending'\<close>; the three routes of \<^verbatim>\<open>r.py\<close> commit no note or one whose
  status is \<^verbatim>\<open>'pending'\<close>.  So no submission creates an approved or a hidden note.
\<close>

theorem submissions_are_pending:
  "(post_student now req db = Inr (resp, db') \<longrightarrow>
      db' = db \<or> (\<exists>n. db' = add_note db n \<and> status n = ''pending'')) \<and>
   (post_teacher now req db = Inr (resp, db') \<longrightarrow>
      db' = db \<or> (\<exists>n. db' = add_note db n \<and> status n = ''pending'')) \<and>
   (post_staff now req db = Inr (resp, db') \<longrightarrow>
      db' = db \<or> (\<exists>n. db' = add_note db n \<and> status n = ''pending'')) \<and>
   (r_post_student req = (resp, Some rn) \<longrightarrow> r_status rn = ''pending'') \<and>
   (r_post_teacher req = (resp, Some rn) \<longrightarrow> r_status rn = ''pending'') \<and>
   (r_post_staff req = (resp, Some rn) \<longrightarrow> r_status rn = ''pending'')"
  using post_student_pending [of now req db resp db'] post_teacher_pending [of now req db resp db']
    post_staff_pending [of now req db resp db'] r_post_pending [of req resp rn]
  by blast

lemma add_note_neq: "add_note db n \<noteq> db"
proof
  assume "add_note db n = db"
  then have "note_table (add_note db n) = note_table db" by simp
  then show False by (simp add: add_note_def)
qed

lemma add_note_inject: "add_note db n = add_note db n' \<Longrightarrow> n = n'"
proof -
  assume "add_note db n = add_note db n'"
  then have "note_table (add_note db n) = note_table (add_note db n')" by simp
  then show ?thesis by (simp add: add_note_def)
qed

lemmas form_defs = form_get_def Let_def strip_def is_space_def or_empty_def or_none_def
  truthy_def py_int_opt_def py_int_def is_digit_def int_strip_def is_int_space_def

theorem submissions_are_pending_witness:
  "(\<exists>resp n. post_student (at_noon 2025 9 10) (student_form ''1'' ''2'') (seed_db []) =
       Inr (resp, add_note (seed_db []) n) \<and> status n = ''pending'') \<and>
   (\<exists>resp n. post_teacher (at_noon 2025 9 10) teacher_form (seed_db []) =
       Inr (resp, add_note (seed_db []) n) \<and> status n = ''pending'') \<and>
   (\<exists>resp n. post_staff (at_noon 2025 9 10) staff_form (seed_db []) =
       Inr (resp, add_note (seed_db []) n) \<and> status n = ''pending'') \<and>
   (\<exists>resp rn. r_post_student (student_form ''1'' ''2'') = (resp, Some rn) \<and>
       r_status rn = ''pending'') \<and>
   (\<exists>resp rn. r_post_teacher teacher_form = (resp, Some rn) \<and> r_status rn = ''pending'') \<and>
   (\<exists>resp rn. r_post_staff staff_form = (resp, Some rn) \<and> r_status rn = ''pending'')"
proof -
  let ?now = "at_noon 2025 9 10" and ?db = "seed_db []"
  have stored: "\<exists>n. db' = add_note ?db n \<and> status n = ''pending''"
    if "db' = ?db \<or> (\<exists>n. db' = add_note ?db n \<and> status n = ''pending'')"
      and "db' = add_note ?db m" for db' m
    using that add_note_neq [of ?db m] by auto
  obtain m1 where e1:
    "post_student ?now (student_form ''1'' ''2'') ?db = Inr (thanks, add_note ?db m1)"
    by (simp add: post_student_def student_form_def form_defs)
  obtain m2 where e2: "post_teacher ?now teacher_form ?db = Inr (thanks, add_note ?db m2)"
    by (simp add: post_teacher_def teacher_form_def form_defs)
  obtain m3 where e3: "post_staff ?now staff_form ?db = Inr (thanks, add_note ?db m3)"
    by (simp add: post_staff_def staff_form_def form_defs)
  obtain r1 where f1: "r_post_student (student_form ''1'' ''2'') = (r_posted, Some r1)"
    by (simp add: r_post_student_def student_form_def form_defs)
  obtain r2 where f2: "r_post_teacher teacher_form = (r_posted, Some r2)"
    by (simp add: r_post_teacher_def teacher_form_def form_defs)
  obtain r3 where f3: "r_post_staff staff_form = (r_posted, Some r3)"
    by (simp add: r_post_staff_def staff_form_def form_defs)
  from submissions_are_pending [of ?now "student_form ''1'' ''2''" ?db thanks "add_note ?db m1"] e1
  have "\<exists>n. add_note ?db m1 = add_note ?db n \<and> status n = ''pending''"
    by (intro stored [of _ m1]) simp_all
  with e1 have a1: "\<exists>resp n. post_student ?now (student_form ''1'' ''2'') ?db =
       Inr (resp, add_note ?db n) \<and> status n = ''pending''"
    by auto
  from submissions_are_pending [of ?now teacher_form ?db thanks "add_note ?db m2"] e2
  have "\<exists>n. add_note ?db m2 = add_note ?db n \<and> status n = ''pending''"
    by (intro stored [of _ m2]) simp_all
  with e2 have a2: "\<exists>resp n. post_teacher ?now teacher_form ?db =
       Inr (resp, add_note ?db n) \<and> status n = ''pending''"
    by auto
  from submissions_are_pending [of ?now staff_form ?db thanks "add_note ?db m3"] e3
  have "\<exists>n. add_note ?db m3 = add_note ?db n \<and> status n = ''pending''"
    by (intro stored [of _ m3]) simp_all
  with e3 have a3: "\<exists>resp n. post_staff ?now staff_form ?db =
       Inr (resp, add_note ?db n) \<and> status n = ''pending''"
    by auto
  from submissions_are_pending [of _ "student_form ''1'' ''2''" _ r_posted _ r1] f1
  have b1: "\<exists>resp rn. r_post_student (student_form ''1'' ''2'') = (resp, Some rn) \<and>
       r_status rn = ''pending''"
    by auto
  from submissions_are_pending [of _ teacher_form _ r_posted _ r2] f2
  have b2: "\<exists>resp rn. r_post_teacher teacher_form = (resp, Some rn) \<and> r_status rn = ''pending''"
    by auto
  from submissions_are_pending [of _ staff_form _ r_posted _ r3] f3
  have b3: "\<exists>resp rn. r_post_staff staff_form = (resp, Some rn) \<and> r_status rn = ''pending''"
    by auto
  from a1 a2 a3 b1 b2 b3 show ?thesis by (intro conjI)
qed

text \<open>
  Claim C5 says that a student's note to a student weighs 1 when giver and receiver are
  of the same section.  The route compares the two submitted values as strings and
  stores them as integers: for the values \<^verbatim>\<open>'1'\<close> and \<^verbatim>\<open>'01'\<close> the stored note
  has the giver's section 1, the receiver's section 1, and the weight 2.
\<close>

theorem post_student_same_section_weight_2:
  "map_sum id (\<lambda>(resp, db'). map (\<lambda>n. (giver_section_id n, receiver_section_id n, weight_applied n))
       (note_table db'))
     (post_student (at_noon 2025 9 10) (student_form ''1'' ''01'') (seed_db [])) =
   Inr [(Some 1, Some 1, Some 2)]"
  by (simp add: post_student_def student_form_def form_defs student_weight_def py_str_def
      add_note_def seed_db_def)

section \<open>Properties of the certificate\<close>












section \<open>Properties of the Python floats\<close>

subsection \<open>Rounding to the nearest integer\<close>

lemma rhe_floor: "\<lfloor>x\<rfloor> \<le> rhe x \<and> rhe x \<le> \<lfloor>x\<rfloor> + 1"
  by (simp add: rhe_def Let_def)

lemma rhe_error: "\<bar>of_int (rhe x) - x\<bar> \<le> 1 / 2"
proof -
  have "of_int \<lfloor>x\<rfloor> \<le> x" "x < of_int \<lfloor>x\<rfloor> + 1"
    by linarith+
  then show ?thesis
    by (auto simp: rhe_def Let_def abs_le_iff not_less)
qed

lemma rhe_of_int [simp]: "rhe (of_int n) = n"
  by (simp add: rhe_def)

lemma rhe_mono:
  assumes "x \<le> y"
  shows "rhe x \<le> rhe y"
proof (cases "\<lfloor>x\<rfloor> = \<lfloor>y\<rfloor>")
  case True
  with assms have "x - of_int \<lfloor>x\<rfloor> \<le> y - of_int \<lfloor>y\<rfloor>" by simp
  with True show ?thesis
    by (auto simp: rhe_def Let_def)
next
  case False
  with assms have "\<lfloor>x\<rfloor> + 1 \<le> \<lfloor>y\<rfloor>"
    using floor_mono [of x y] by linarith
  with rhe_floor [of x] rhe_floor [of y] show ?thesis by linarith
qed

lemma rhe_le_int: "x \<le> of_int n \<Longrightarrow> rhe x \<le> n"
  using rhe_mono [of x "of_int n"] by simp

lemma rhe_ge_int: "of_int n \<le> x \<Longrightarrow> n \<le> rhe x"
  using rhe_mono [of "of_int n" x] by simp

lemma rhe_near: 
  assumes "\<bar>x - of_int n\<bar> < 1 / 2"
  shows "rhe x = n"
proof -
  from assms have "\<bar>of_int (rhe x) - (of_int n :: rat)\<bar> < 1"
    using rhe_error [of x] by linarith
  then have "\<bar>(of_int (rhe x - n) :: rat)\<bar> < 1" by simp
  then have "\<bar>rhe x - n\<bar> < 1"
    by (metis of_int_abs of_int_less_1_iff)
  then show ?thesis by linarith
qed

subsection \<open>The binary exponent\<close>

lemma pow2_pos [simp]: "0 < (2::rat) powi k"
  by simp

lemma pow2_mono: "a \<le> b \<Longrightarrow> (2::rat) powi a \<le> 2 powi b"
  by (rule power_int_increasing) simp_all

lemma pow2_strict_mono: "a < b \<Longrightarrow> (2::rat) powi a < 2 powi b"
  by (rule power_int_strict_increasing) simp_all

lemma pow2_less_cancel: "(2::rat) powi a < 2 powi b \<Longrightarrow> a < b"
  using pow2_mono [of b a] by (cases "a < b") auto

lemma pow2_nat: "0 \<le> k \<Longrightarrow> (2::rat) ^ nat k = 2 powi k"
  by (simp add: power_int_def)

lemma binade_bounds:
  assumes "x \<noteq> 0"
  shows "2 powi binade x \<le> \<bar>x\<bar> \<and> \<bar>x\<bar> < 2 powi (binade x + 1)"
proof -
  obtain p q where pq: "quotient_of \<bar>x\<bar> = (p, q)" by (cases "quotient_of \<bar>x\<bar>")
  then have q: "0 < q" and x: "\<bar>x\<bar> = of_int p / of_int q"
    using quotient_of_denom_pos quotient_of_div by blast+
  from assms have "0 < \<bar>x\<bar>" by simp
  with x q have p: "0 < p"
    by (simp add: zero_less_divide_iff)
  define d where "d = bitlen p - bitlen q"
  have bp: "(2::rat) powi (bitlen p - 1) \<le> of_int p" "(of_int p :: rat) < 2 powi bitlen p"
  proof -
    from bitlen_bounds [OF p] have "2 ^ nat (bitlen p - 1) \<le> p" "p < 2 ^ nat (bitlen p)"
      by blast+
    then have "(of_int (2 ^ nat (bitlen p - 1)) :: rat) \<le> of_int p"
      "(of_int p :: rat) < of_int (2 ^ nat (bitlen p))"
      by (simp_all only: of_int_le_iff of_int_less_iff)
    moreover have "1 \<le> bitlen p" using p bitlen_eq_zero_iff [of p] bitlen_nonneg [of p] by linarith
    ultimately show "(2::rat) powi (bitlen p - 1) \<le> of_int p" "(of_int p :: rat) < 2 powi bitlen p"
      by (simp_all add: pow2_nat [symmetric])
  qed
  have bq: "(2::rat) powi (bitlen q - 1) \<le> of_int q" "(of_int q :: rat) < 2 powi bitlen q"
  proof -
    from bitlen_bounds [OF q] have "2 ^ nat (bitlen q - 1) \<le> q" "q < 2 ^ nat (bitlen q)"
      by blast+
    then have "(of_int (2 ^ nat (bitlen q - 1)) :: rat) \<le> of_int q"
      "(of_int q :: rat) < of_int (2 ^ nat (bitlen q))"
      by (simp_all only: of_int_le_iff of_int_less_iff)
    moreover have "1 \<le> bitlen q" using q bitlen_eq_zero_iff [of q] bitlen_nonneg [of q] by linarith
    ultimately show "(2::rat) powi (bitlen q - 1) \<le> of_int q" "(of_int q :: rat) < 2 powi bitlen q"
      by (simp_all add: pow2_nat [symmetric])
  qed
  have qpos: "(0::rat) < of_int q" using q by simp
  have upper: "\<bar>x\<bar> < 2 powi (d + 1)"
  proof -
    have "of_int p / of_int q < (2::rat) powi bitlen p / of_int q"
      using bp(2) qpos by (simp add: divide_strict_right_mono)
    also have "\<dots> \<le> 2 powi bitlen p / 2 powi (bitlen q - 1)"
      using bq(1) by (simp add: frac_le)
    also have "\<dots> = 2 powi (d + 1)"
      by (simp add: d_def power_int_diff [symmetric] algebra_simps)
    finally show ?thesis by (simp add: x)
  qed
  have lower: "2 powi (d - 1) < \<bar>x\<bar>"
  proof -
    have "(2::rat) powi (d - 1) = 2 powi (bitlen p - 1) / 2 powi bitlen q"
      by (simp add: d_def power_int_diff [symmetric] algebra_simps)
    also have "\<dots> < 2 powi (bitlen p - 1) / of_int q"
      using bq(2) qpos by (simp add: divide_strict_left_mono)
    also have "\<dots> \<le> of_int p / of_int q"
      using bp(1) qpos by (simp add: divide_right_mono)
    finally show ?thesis by (simp add: x)
  qed
  show ?thesis
  proof (cases "2 powi d \<le> \<bar>x\<bar>")
    case True
    then have "binade x = d" by (simp add: binade_def pq d_def)
    with True upper show ?thesis by simp
  next
    case False
    then have "binade x = d - 1" by (simp add: binade_def pq d_def)
    with False lower show ?thesis by simp
  qed
qed

lemma binade_unique:
  assumes "2 powi e \<le> \<bar>x\<bar>" "\<bar>x\<bar> < 2 powi (e + 1)"
  shows "binade x = e"
proof -
  from assms(1) have "0 < \<bar>x\<bar>"
    using pow2_pos [of e] by linarith
  then have "x \<noteq> 0" by simp
  from binade_bounds [OF this] assms
  have "(2::rat) powi binade x < 2 powi (e + 1)" "(2::rat) powi e < 2 powi (binade x + 1)"
    by linarith+
  then have "binade x < e + 1" "e < binade x + 1"
    by (blast dest: pow2_less_cancel)+
  then show ?thesis by linarith
qed

lemma binade_less:
  assumes "x \<noteq> 0" "\<bar>x\<bar> < 2 powi k"
  shows "binade x < k"
proof -
  from binade_bounds [OF assms(1)] assms(2) have "(2::rat) powi binade x < 2 powi k"
    by linarith
  then show ?thesis by (rule pow2_less_cancel)
qed

lemma binade_ge:
  assumes "2 powi k \<le> \<bar>x\<bar>"
  shows "k \<le> binade x"
proof -
  from assms have "0 < \<bar>x\<bar>"
    using pow2_pos [of k] by linarith
  then have "x \<noteq> 0" by simp
  from binade_bounds [OF this] assms have "(2::rat) powi k < 2 powi (binade x + 1)"
    by linarith
  then have "k < binade x + 1" by (rule pow2_less_cancel)
  then show ?thesis by simp
qed

lemma binade_mono:
  assumes "x \<noteq> 0" "\<bar>x\<bar> \<le> \<bar>y\<bar>"
  shows "binade x \<le> binade y"
proof -
  from binade_bounds [OF assms(1)] assms(2) have "2 powi binade x \<le> \<bar>y\<bar>" by linarith
  then show ?thesis by (rule binade_ge)
qed

subsection \<open>Rounding to binary64\<close>

lemma quantum_pos [simp]: "0 < quantum x"
  by (simp add: quantum_def)

lemma quantum_nonneg [simp]: "0 \<le> quantum x"
  using quantum_pos [of x] by (rule less_imp_le)

lemma quantum_nonzero [simp]: "quantum x \<noteq> 0"
  by (simp add: quantum_def)

lemma rhe_0 [simp]: "rhe 0 = 0"
  using rhe_of_int [of 0] by simp

lemma rnd_fin_0 [simp]: "rnd_fin 0 = 0"
  by (simp add: rnd_fin_def)

lemma rnd_fin_error: "\<bar>rnd_fin x - x\<bar> \<le> quantum x / 2"
proof -
  have "rnd_fin x - x = (of_int (rhe (x / quantum x)) - x / quantum x) * quantum x"
    using quantum_pos [of x] by (simp add: rnd_fin_def algebra_simps)
  then have "\<bar>rnd_fin x - x\<bar> = \<bar>of_int (rhe (x / quantum x)) - x / quantum x\<bar> * quantum x"
    by (simp add: abs_mult)
  also have "\<dots> \<le> 1 / 2 * quantum x"
    by (intro mult_right_mono rhe_error) simp
  finally show ?thesis by simp
qed

lemma quantum_le:
  assumes "x \<noteq> 0" "\<bar>x\<bar> < 2 powi k" "- 1021 \<le> k"
  shows "quantum x \<le> 2 powi (k - 53)"
proof -
  from binade_less [OF assms(1,2)] assms(3) have "max (binade x) (- 1022) - 52 \<le> k - 53"
    by simp
  then show ?thesis
    unfolding quantum_def by (rule pow2_mono)
qed

lemma rnd_fin_nonneg: "0 \<le> x \<Longrightarrow> 0 \<le> rnd_fin x"
proof -
  assume "0 \<le> x"
  then have "(of_int 0 :: rat) \<le> x / quantum x" by simp
  then have "0 \<le> rhe (x / quantum x)" by (rule rhe_ge_int)
  then show ?thesis by (simp add: rnd_fin_def)
qed

lemma rnd_fin_grid:
  assumes "x = of_int n * 2 powi j" "j' \<le> j" "quantum x = 2 powi j'"
  shows "rnd_fin x = x"
proof -
  have "x / quantum x = x / 2 powi j'"
    by (simp only: assms(3))
  also have "\<dots> = of_int n * (2 powi j / 2 powi j')"
    by (simp add: assms(1))
  also have "(2::rat) powi j / 2 powi j' = 2 powi (j - j')"
    by (simp add: power_int_diff)
  also have "(2::rat) powi (j - j') = of_int (2 ^ nat (j - j'))"
    using assms(2) by (simp add: pow2_nat)
  finally have "x / quantum x = of_int (n * 2 ^ nat (j - j'))"
    by simp
  then have "rhe (x / quantum x) = n * 2 ^ nat (j - j')"
    by (simp only: rhe_of_int)
  then have "rnd_fin x = of_int (n * 2 ^ nat (j - j')) * quantum x"
    by (simp add: rnd_fin_def)
  also have "\<dots> = x / quantum x * quantum x"
    using \<open>x / quantum x = of_int (n * 2 ^ nat (j - j'))\<close> by simp
  finally show ?thesis by simp
qed

text \<open>A number with at most 53 significant bits above the smallest spacing is its own rounding.\<close>

lemma rnd_fin_representable:
  assumes "- 1074 \<le> j" "\<bar>n\<bar> < 2 ^ 53"
  shows "rnd_fin (of_int n * 2 powi j) = of_int n * 2 powi j"
proof (cases "n = 0")
  case True
  then show ?thesis by simp
next
  case False
  define x :: rat where "x = of_int n * 2 powi j"
  have x0: "x \<noteq> 0" using False by (simp add: x_def)
  have "\<bar>x\<bar> = of_int \<bar>n\<bar> * 2 powi j"
    by (simp add: x_def abs_mult)
  also have "\<dots> < of_int (2 ^ 53) * 2 powi j"
    using assms(2) by (intro mult_strict_right_mono) (simp_all only: of_int_less_iff pow2_pos)
  also have "\<dots> = 2 powi (53 + j)"
    by (simp add: power_int_add)
  finally have "binade x < 53 + j"
    by (rule binade_less [OF x0])
  with assms(1) have "max (binade x) (- 1022) - 52 \<le> j" by simp
  then have "rnd_fin x = x"
    by (intro rnd_fin_grid [of x n j]) (simp_all add: x_def quantum_def)
  then show ?thesis by (simp add: x_def)
qed

lemma rnd_fin_of_nat: "n < 2 ^ 53 \<Longrightarrow> rnd_fin (of_nat n) = of_nat n"
  using rnd_fin_representable [of 0 "int n"] by simp

lemma rnd_fin_pow2: "- 1074 \<le> k \<Longrightarrow> rnd_fin (2 powi k) = 2 powi k"
  using rnd_fin_representable [of k 1] by simp

lemma rnd_fin_mono:
  assumes "0 \<le> x" "x \<le> y"
  shows "rnd_fin x \<le> rnd_fin y"
proof (cases "x = 0")
  case True
  with assms rnd_fin_nonneg [of y] show ?thesis by simp
next
  case False
  with assms have x: "0 < x" and y: "0 < y" by simp_all
  define ex where "ex = max (binade x) (- 1022)"
  define ey where "ey = max (binade y) (- 1022)"
  have qx: "quantum x = 2 powi (ex - 52)" and qy: "quantum y = 2 powi (ey - 52)"
    by (simp_all add: quantum_def ex_def ey_def)
  have "binade x \<le> binade y"
    using binade_mono [of x y] x y assms by simp
  then have le: "ex \<le> ey" by (simp add: ex_def ey_def)
  show ?thesis
  proof (cases "ex = ey")
    case True
    then have "quantum x = quantum y" by (simp add: qx qy)
    moreover have "rhe (x / quantum y) \<le> rhe (y / quantum y)"
      using assms by (intro rhe_mono divide_right_mono) simp_all
    ultimately show ?thesis
      by (simp add: rnd_fin_def mult_right_mono)
  next
    case False
    with le have lt: "ex < ey" by simp
    then have ey: "ey = binade y"
      by (auto simp: ex_def ey_def max_def split: if_splits)
    define B :: rat where "B = 2 powi ey"
    have By: "B \<le> y"
      using binade_bounds [of y] y by (simp add: B_def ey)
    have xB: "x \<le> B"
    proof -
      have "x < 2 powi (binade x + 1)"
        using binade_bounds [of x] x by simp
      also have "\<dots> \<le> 2 powi ey"
        using lt by (intro pow2_mono) (simp add: ex_def)
      finally show ?thesis by (simp add: B_def)
    qed
    have "B / quantum y = of_int (2 ^ 52)"
      by (simp add: B_def qy power_int_diff [symmetric])
    moreover have "B / quantum y \<le> y / quantum y"
      using By by (simp add: divide_right_mono)
    ultimately have "2 ^ 52 \<le> rhe (y / quantum y)"
      by (intro rhe_ge_int) simp
    then have "of_int (2 ^ 52) * quantum y \<le> rnd_fin y"
      unfolding rnd_fin_def by (intro mult_right_mono) (simp_all only: of_int_le_iff, simp)
    moreover have "of_int (2 ^ 52) * quantum y = B"
      using \<open>B / quantum y = of_int (2 ^ 52)\<close> by (simp add: field_simps)
    ultimately have 1: "B \<le> rnd_fin y" by simp
    have e: "ey - (ex - 52) = ey - ex + 52" by simp
    have "B / quantum x = 2 powi (ey - ex + 52)"
      by (simp add: B_def qx power_int_diff [symmetric] e)
    also have "\<dots> = of_int (2 ^ nat (ey - ex + 52))"
      using le by (simp add: pow2_nat)
    finally have Bq: "B / quantum x = of_int (2 ^ nat (ey - ex + 52))" .
    moreover have "x / quantum x \<le> B / quantum x"
      using xB by (simp add: divide_right_mono)
    ultimately have "rhe (x / quantum x) \<le> 2 ^ nat (ey - ex + 52)"
      by (intro rhe_le_int) simp
    then have "rnd_fin x \<le> of_int (2 ^ nat (ey - ex + 52)) * quantum x"
      unfolding rnd_fin_def by (intro mult_right_mono) (simp_all only: of_int_le_iff, simp)
    moreover have "of_int (2 ^ nat (ey - ex + 52)) * quantum x = B"
      using Bq by (simp add: field_simps)
    ultimately have "rnd_fin x \<le> B" by simp
    with 1 show ?thesis by simp
  qed
qed

lemma rnd_fin_le_pow2:
  assumes "0 \<le> x" "x \<le> 2 powi k" "- 1074 \<le> k"
  shows "rnd_fin x \<le> 2 powi k"
  using rnd_fin_mono [OF assms(1,2)] rnd_fin_pow2 [OF assms(3)] by simp

lemma rnd_Finite:
  assumes "\<bar>rnd_fin x\<bar> < 2 ^ 1024"
  shows "rnd x = Finite (rnd_fin x)"
  using assms by (simp add: rnd_def Let_def abs_less_iff not_le)

subsection \<open>Small numbers stay finite\<close>

lemma rnd_small:
  assumes "\<bar>x\<bar> \<le> 2 ^ 60"
  shows "rnd x = Finite (rnd_fin x)"
proof (cases "x = 0")
  case True
  then show ?thesis by (simp add: rnd_def)
next
  case False
  have "\<bar>x\<bar> < 2 powi 61"
    using assms by (simp add: power_int_def)
  from quantum_le [OF False this] have "quantum x \<le> 2 powi 8"
    by simp
  then have "quantum x \<le> 2 ^ 8" by (simp add: power_int_def)
  with rnd_fin_error [of x] assms have "\<bar>rnd_fin x\<bar> \<le> 2 ^ 60 + 2 ^ 8"
    by linarith
  also have "\<dots> < (2 ^ 1024 :: rat)" by simp
  finally show ?thesis by (rule rnd_Finite)
qed

lemma rnd_nat:
  assumes "n < 2 ^ 53"
  shows "rnd (of_nat n) = Finite (of_nat n)"
proof -
  have "(of_nat n :: rat) < of_nat (2 ^ 53)"
    using assms by (simp only: of_nat_less_iff)
  then have "\<bar>of_nat n :: rat\<bar> \<le> 2 ^ 60" by simp
  then show ?thesis by (simp add: rnd_small rnd_fin_of_nat [OF assms])
qed

lemma float_of_nat_small: "n < 2 ^ 53 \<Longrightarrow> float_of_nat n = Inr (Finite (of_nat n))"
  by (simp add: float_of_nat_def rnd_nat)

subsection \<open>One percentage\<close>

lemma dec1_mono: "x \<le> y \<Longrightarrow> dec1 x \<le> dec1 y"
  by (simp add: dec1_def rhe_mono divide_right_mono)

lemma dec1_bounds:
  assumes "0 \<le> x" "x \<le> 100"
  shows "0 \<le> dec1 x \<and> dec1 x \<le> 100"
proof -
  have "(of_int 0 :: rat) \<le> x * 10" "x * 10 \<le> of_int 1000"
    using assms by simp_all
  then have "0 \<le> rhe (x * 10)" "rhe (x * 10) \<le> 1000"
    by (blast intro: rhe_ge_int rhe_le_int)+
  then have "(0::rat) \<le> of_int (rhe (x * 10))" "(of_int (rhe (x * 10)) :: rat) \<le> 1000"
    by simp_all
  then show ?thesis by (simp add: dec1_def)
qed

lemma dec1_error: "\<bar>dec1 x - x\<bar> \<le> 1 / 20"
  using rhe_error [of "x * 10"] by (simp add: dec1_def field_simps abs_le_iff)

lemma rnd_fin_100: "rnd_fin 100 = 100"
  using rnd_fin_representable [of 0 100] by simp

lemma rnd_fin_bounds_100:
  assumes "0 \<le> x" "x \<le> 100"
  shows "0 \<le> rnd_fin x \<and> rnd_fin x \<le> 100"
  using rnd_fin_nonneg [OF assms(1)] rnd_fin_mono [OF assms] by (simp add: rnd_fin_100)

lemma exact_pct_bounds:
  assumes "cnt \<le> tot" "0 < tot"
  shows "0 \<le> exact_pct tot cnt \<and> exact_pct tot cnt \<le> 100"
proof -
  have "(of_nat cnt :: rat) \<le> of_nat tot" "(0::rat) < of_nat tot"
    using assms by simp_all
  then show ?thesis
    by (simp add: exact_pct_def field_simps)
qed

lemma shown_pct_bounds:
  assumes "cnt \<le> tot" "0 < tot"
  shows "0 \<le> shown_pct tot cnt \<and> shown_pct tot cnt \<le> 100"
  unfolding shown_pct_def
  using exact_pct_bounds [OF assms] by (intro dec1_bounds) (simp_all add: rnd_fin_bounds_100)

lemma shown_pct_mono:
  assumes "c \<le> c'" "c' \<le> tot" "0 < tot"
  shows "shown_pct tot c \<le> shown_pct tot c'"
proof -
  have "exact_pct tot c \<le> exact_pct tot c'"
    using assms by (simp add: exact_pct_def divide_right_mono)
  moreover have "0 \<le> exact_pct tot c"
    using exact_pct_bounds [of c tot] assms by simp
  ultimately show ?thesis
    unfolding shown_pct_def by (intro dec1_mono rnd_fin_mono)
qed

lemma pct_of_small:
  assumes "cnt \<le> tot" "0 < tot" "tot \<le> 2 ^ 40"
  shows "pct_of tot cnt = Inr (Finite (rnd_fin (shown_pct tot cnt)))"
proof -
  have t: "tot < 2 ^ 53" using assms(3) by (simp add: order_le_less_trans)
  with assms(1) have c: "cnt < 2 ^ 53" by simp
  have "100 * cnt \<le> 100 * 2 ^ 40" using assms by simp
  also have "\<dots> < (2 ^ 53 :: nat)" by simp
  finally have c100: "100 * cnt < 2 ^ 53" .
  have m: "rnd (of_nat cnt * 100) = Finite (of_nat cnt * 100)"
    using rnd_nat [OF c100] by (simp add: mult.commute)
  have e: "(of_nat cnt :: rat) * 100 / of_nat tot = exact_pct tot cnt"
    by (simp add: exact_pct_def)
  have b: "0 \<le> exact_pct tot cnt" "exact_pct tot cnt \<le> 100"
    using exact_pct_bounds [OF assms(1,2)] by simp_all
  have q: "rnd (exact_pct tot cnt) = Finite (rnd_fin (exact_pct tot cnt))"
    using b by (intro rnd_small) simp
  have s: "rnd (shown_pct tot cnt) = Finite (rnd_fin (shown_pct tot cnt))"
    using shown_pct_bounds [OF assms(1,2)] by (intro rnd_small) simp
  show ?thesis
    using assms(2)
    by (simp add: pct_of_def float_of_nat_small [OF c] float_of_nat_small [OF t] m e q
        s [unfolded shown_pct_def] shown_pct_def)
qed

section \<open>Properties of the chart bars\<close>

lemma rnd_shown_pct:
  assumes "cnt \<le> tot" "0 < tot"
  shows "rnd (shown_pct tot cnt) = Finite (rnd_fin (shown_pct tot cnt))"
  using shown_pct_bounds [OF assms] by (intro rnd_small) simp

lemma bars_loop_small:
  assumes "0 < tot" "tot \<le> 2 ^ 40" "\<forall>x\<in>set tops. snd x \<le> tot"
  shows "bars_loop tot tops items acc =
     Inr (items @ map (shown_bar tot) tops,
          foldl fadd acc (map (\<lambda>x. Finite (rnd_fin (shown_pct tot (snd x)))) tops))"
  using assms(3)
proof (induction tops arbitrary: items acc)
  case Nil
  then show ?case by simp
next
  case (Cons x tops)
  obtain name cnt where x: "x = (name, cnt)" by (cases x)
  with Cons.prems have "cnt \<le> tot" by simp
  from pct_of_small [OF this assms(1,2)] Cons.prems show ?case
    by (simp add: x Cons.IH shown_bar_def rnd_shown_pct [OF \<open>cnt \<le> tot\<close> assms(1)])
qed

lemma total_of_cases:
  "(sum_list (map snd m) = 0 \<and> total_of m = 1) \<or>
   (0 < sum_list (map snd m) \<and> total_of m = sum_list (map snd m))"
proof -
  define s where "s = sum_list (map snd m)"
  have "total_of m = (if s = 0 then 1 else s)"
    by (simp only: total_of_def Let_def s_def)
  then have "(s = 0 \<and> total_of m = 1) \<or> (0 < s \<and> total_of m = s)"
    by (cases "s = 0") simp_all
  then show ?thesis by (simp only: s_def)
qed

lemma total_of_pos: "0 < total_of m"
  using total_of_cases [of m] by linarith

lemma total_of_ge: "x \<in> set m \<Longrightarrow> snd x \<le> total_of m"
proof -
  assume "x \<in> set m"
  then have "snd x \<in> set (map snd m)" by simp
  then have "snd x \<le> sum_list (map snd m)" by (simp add: member_le_sum_list)
  then show ?thesis
    using total_of_cases [of m] by linarith
qed

lemma set_top_of: "set (top_of m) \<subseteq> set m"
  using set_take_subset [of 4 "sorted_desc m"] by (simp add: top_of_def sorted_desc_def)

lemma length_top_of: "length (top_of m) = min 4 (length m)"
  by (simp add: top_of_def sorted_desc_def min.commute)

subsection \<open>The accumulated percentage\<close>

lemma rnd_fin_error_128:
  assumes "0 \<le> d" "d \<le> 100"
  shows "\<bar>rnd_fin d - d\<bar> \<le> 2 powi (- 47)"
proof (cases "d = 0")
  case True
  then show ?thesis by simp
next
  case False
  have "\<bar>d\<bar> < 2 powi 7" using assms by (simp add: power_int_def)
  from quantum_le [OF False this] have "quantum d \<le> 2 powi (- 46)" by simp
  moreover have "(2::rat) powi (- 46) / 2 = 2 powi (- 47)"
    by (simp add: power_int_minus)
  ultimately show ?thesis
    using rnd_fin_error [of d] by linarith
qed

lemma rnd_error_512:
  assumes "\<bar>x\<bar> < 512"
  shows "rnd x = Finite (rnd_fin x) \<and> \<bar>rnd_fin x - x\<bar> \<le> 2 powi (- 45)"
proof (cases "x = 0")
  case True
  then show ?thesis by (simp add: rnd_def)
next
  case False
  have "\<bar>x\<bar> < 2 powi 9" using assms by (simp add: power_int_def)
  from quantum_le [OF False this] have "quantum x \<le> 2 powi (- 44)" by simp
  moreover have "(2::rat) powi (- 44) / 2 = 2 powi (- 45)"
    by (simp add: power_int_minus)
  ultimately have "\<bar>rnd_fin x - x\<bar> \<le> 2 powi (- 45)"
    using rnd_fin_error [of x] by linarith
  moreover have "rnd x = Finite (rnd_fin x)"
    using assms by (intro rnd_small) simp
  ultimately show ?thesis by simp
qed

lemma acc_pct_error:
  assumes "\<bar>a - A\<bar> \<le> of_nat k * 2 powi (- 44)" "0 \<le> A" "A \<le> 100 * of_nat k"
    and "\<forall>d\<in>set ds. 0 \<le> d \<and> d \<le> 100" "k + length ds \<le> 4"
  shows "\<exists>s. foldl fadd (Finite a) (map (\<lambda>d. Finite (rnd_fin d)) ds) = Finite s \<and>
            \<bar>s - (A + sum_list ds)\<bar> \<le> of_nat (k + length ds) * 2 powi (- 44)"
  using assms
proof (induction ds arbitrary: a A k)
  case Nil
  then show ?case by simp
next
  case (Cons d ds)
  have d: "0 \<le> d" "d \<le> 100" using Cons.prems(4) by simp_all
  have k: "k \<le> 3" using Cons.prems(5) by simp
  have p44: "(2::rat) powi (- 44) \<le> 1 / 4096" by (simp add: power_int_minus)
  have "(of_nat k :: rat) \<le> 3" using k by simp
  then have kk: "(of_nat k :: rat) * 2 powi (- 44) \<le> 3 * (1 / 4096)"
    by (intro mult_mono p44) simp_all
  have ed: "\<bar>rnd_fin d - d\<bar> \<le> 2 powi (- 47)" by (rule rnd_fin_error_128 [OF d])
  have p47: "(2::rat) powi (- 47) \<le> 1 / 4096" by (simp add: power_int_minus)
  have Ak: "A \<le> 300" using Cons.prems(3) \<open>(of_nat k :: rat) \<le> 3\<close> by linarith
  define x where "x = a + rnd_fin d"
  have a1: "\<bar>a - A\<bar> \<le> 3 * (1 / 4096)" using Cons.prems(1) kk by linarith
  have e1: "\<bar>rnd_fin d - d\<bar> \<le> 1 / 4096" using ed p47 by linarith
  have "\<bar>x\<bar> < 512"
    unfolding x_def using a1 e1 Cons.prems(2) Ak d by linarith
  from rnd_error_512 [OF this] have rx: "rnd x = Finite (rnd_fin x)"
    and ex: "\<bar>rnd_fin x - x\<bar> \<le> 2 powi (- 45)" by simp_all
  have sum: "(2::rat) powi (- 45) + 2 powi (- 47) \<le> 2 powi (- 44)"
    by (simp add: power_int_minus)
  have "\<bar>rnd_fin x - (A + d)\<bar> \<le> of_nat k * 2 powi (- 44) + 2 powi (- 44)"
    using ex ed Cons.prems(1) sum unfolding x_def by linarith
  then have 1: "\<bar>rnd_fin x - (A + d)\<bar> \<le> of_nat (Suc k) * 2 powi (- 44)"
    by (simp add: algebra_simps)
  have 2: "0 \<le> A + d" using Cons.prems(2) d by simp
  have 3: "A + d \<le> 100 * of_nat (Suc k)" using Cons.prems(3) d by simp
  have 4: "\<forall>d\<in>set ds. 0 \<le> d \<and> d \<le> 100" using Cons.prems(4) by simp
  have 5: "Suc k + length ds \<le> 4" using Cons.prems(5) by simp
  from Cons.IH [OF 1 2 3 4 5, unfolded x_def] show ?case
    by (simp add: rx [unfolded x_def] add.assoc)
qed

lemma others_pct_small:
  assumes "\<bar>s - S\<bar> \<le> 4 * 2 powi (- 44)" "S * 10 = of_int N" "0 \<le> S" "S \<le> 400"
  shows "py_round1 (fmax (Finite 0) (fsub (Finite 100) (Finite s))) =
           Finite (rnd_fin (max 0 (100 - S))) \<and>
         (0 < rnd_fin (max 0 (100 - S)) \<longleftrightarrow> S < 100)"
proof -
  have p44: "4 * (2::rat) powi (- 44) \<le> 1 / 4096" by (simp add: power_int_minus)
  have p45: "(2::rat) powi (- 45) \<le> 1 / 4096" by (simp add: power_int_minus)
  have p47: "(2::rat) powi (- 47) \<le> 1 / 4096" by (simp add: power_int_minus)
  have sS: "\<bar>s - S\<bar> \<le> 1 / 4096" using assms(1) p44 by linarith
  define r where "r = rnd_fin (100 - s)"
  have "\<bar>100 - s\<bar> < 512" using sS assms(3,4) by linarith
  from rnd_error_512 [OF this] have rr: "rnd (100 - s) = Finite r"
    and "\<bar>r - (100 - s)\<bar> \<le> 2 powi (- 45)" by (simp_all add: r_def)
  then have er: "\<bar>r - (100 - S)\<bar> \<le> 2 / 4096" using sS p45 by linarith
  define y where "y = max 0 r"
  have step: "py_round1 (fmax (Finite 0) (fsub (Finite 100) (Finite s))) = rnd (dec1 y)"
    by (simp add: fsub_def rr fmax_def y_def max_def)
  show ?thesis
  proof (cases "S < 100")
    case True
    then have "(of_int N :: rat) < of_int 1000" using assms(2) by linarith
    then have "N < 1000" by (simp only: of_int_less_iff)
    then have "N \<le> 999" by simp
    then have "(of_int N :: rat) \<le> of_int 999" by (simp only: of_int_le_iff)
    then have gap: "1 / 10 \<le> 100 - S" using assms(2) by linarith
    with er have "0 < r" by linarith
    then have yr: "y = r" by (simp add: y_def)
    define z where "z = r - (100 - S)"
    have eq: "y * 10 - of_int (1000 - N) = 10 * z"
      using assms(2) by (simp add: yr z_def algebra_simps)
    have "\<bar>y * 10 - of_int (1000 - N)\<bar> = \<bar>10 * z\<bar>"
      by (simp only: eq)
    also have "\<dots> = 10 * \<bar>z\<bar>"
      by (simp add: abs_mult)
    also have "\<dots> \<le> 10 * (2 / 4096)"
      using er by (simp add: z_def)
    also have "\<dots> < 1 / 2" by simp
    finally have "\<bar>y * 10 - of_int (1000 - N)\<bar> < 1 / 2" .
    then have "rhe (y * 10) = 1000 - N" by (rule rhe_near)
    then have d: "dec1 y = 100 - S"
      using assms(2) by (simp add: dec1_def field_simps)
    have b: "0 \<le> 100 - S" "100 - S \<le> 100" using gap assms(3) by linarith+
    then have f: "rnd (100 - S) = Finite (rnd_fin (100 - S))"
      by (intro rnd_small) simp
    have "\<bar>rnd_fin (100 - S) - (100 - S)\<bar> \<le> 2 powi (- 47)"
      by (rule rnd_fin_error_128 [OF b])
    with gap p47 have "0 < rnd_fin (100 - S)" by linarith
    moreover have "max 0 (100 - S) = 100 - S" using b by simp
    ultimately show ?thesis
      using True by (simp add: step d f)
  next
    case False
    with er have "r \<le> 2 / 4096" by linarith
    then have "0 \<le> y" "y \<le> 2 / 4096" by (simp_all add: y_def)
    then have "\<bar>y * 10 - of_int 0\<bar> < 1 / 2" by simp
    then have "rhe (y * 10) = 0" by (rule rhe_near)
    then have d: "dec1 y = 0" by (simp add: dec1_def)
    have "max 0 (100 - S) = 0" using False by simp
    then show ?thesis
      using False by (simp add: step d rnd_def)
  qed
qed

lemma shown_pct_decimal: "\<exists>N. shown_pct tot c * 10 = of_int N"
  by (simp add: shown_pct_def dec1_def)

lemma shown_sum_decimal: "\<exists>N. shown_sum tot items * 10 = of_int N"
proof (induction items)
  case Nil
  show ?case by (simp add: shown_sum_def)
next
  case (Cons x items)
  then obtain N where "shown_sum tot items * 10 = of_int N" by blast
  moreover obtain M where "shown_pct tot (snd x) * 10 = of_int M"
    using shown_pct_decimal by blast
  ultimately have "shown_sum tot (x # items) * 10 = of_int (M + N)"
    by (simp add: shown_sum_def algebra_simps)
  then show ?case by blast
qed

lemma shown_sum_bounds:
  assumes "\<forall>x\<in>set items. snd x \<le> tot" "0 < tot"
  shows "0 \<le> shown_sum tot items \<and> shown_sum tot items \<le> 100 * of_nat (length items)"
  using assms(1)
proof (induction items)
  case Nil
  show ?case by (simp add: shown_sum_def)
next
  case (Cons x items)
  then have "snd x \<le> tot" by simp
  from shown_pct_bounds [OF this assms(2)] Cons show ?case
    by (simp add: shown_sum_def algebra_simps)
qed

text \<open>The whole function on counts of a modest size.\<close>

lemma top_four_plus_others_small:
  assumes "total_of m \<le> 2 ^ 40"
  shows "top_four_plus_others m =
     Inr (map (shown_bar (total_of m)) (top_of m) @
          (if 4 < length m \<and> shown_sum (total_of m) (top_of m) < 100
           then [\<lparr>bar_label = ''Others'',
                  pct = Finite (rnd_fin (100 - shown_sum (total_of m) (top_of m)))\<rparr>]
           else []))"
proof -
  define tot where "tot = total_of m"
  define tops where "tops = top_of m"
  define S where "S = shown_sum tot tops"
  have tot: "0 < tot" "tot \<le> 2 ^ 40" using assms total_of_pos by (simp_all add: tot_def)
  have le: "\<forall>x\<in>set tops. snd x \<le> tot"
    using set_top_of [of m] total_of_ge [of _ m] by (auto simp: tops_def tot_def)
  have len: "length tops \<le> 4" by (simp add: tops_def length_top_of)
  have loop: "bars_loop tot tops [] (Finite 0) =
     Inr (map (shown_bar tot) tops,
          foldl fadd (Finite 0) (map (\<lambda>x. Finite (rnd_fin (shown_pct tot (snd x)))) tops))"
    using bars_loop_small [OF tot le, of "[]" "Finite 0"] by simp
  have ds: "\<forall>d\<in>set (map (\<lambda>x. shown_pct tot (snd x)) tops). 0 \<le> d \<and> d \<le> 100"
    using le shown_pct_bounds [OF _ tot(1)] by auto
  have "\<exists>s. foldl fadd (Finite 0) (map (\<lambda>d. Finite (rnd_fin d)) (map (\<lambda>x. shown_pct tot (snd x)) tops)) = Finite s \<and>
            \<bar>s - (0 + sum_list (map (\<lambda>x. shown_pct tot (snd x)) tops))\<bar>
              \<le> of_nat (0 + length (map (\<lambda>x. shown_pct tot (snd x)) tops)) * 2 powi (- 44)"
    using len by (intro acc_pct_error [OF _ _ _ ds]) simp_all
  then obtain s where acc: "foldl fadd (Finite 0) (map (\<lambda>x. Finite (rnd_fin (shown_pct tot (snd x)))) tops) = Finite s"
    and "\<bar>s - S\<bar> \<le> of_nat (length tops) * 2 powi (- 44)"
    by (auto simp: S_def shown_sum_def comp_def)
  moreover have "(of_nat (length tops) :: rat) * 2 powi (- 44) \<le> 4 * 2 powi (- 44)"
    using len by (intro mult_right_mono) simp_all
  ultimately have err: "\<bar>s - S\<bar> \<le> 4 * 2 powi (- 44)" by linarith
  obtain N where N: "S * 10 = of_int N"
    using shown_sum_decimal [of tot tops] by (auto simp: S_def)
  have "0 \<le> S" "S \<le> 100 * of_nat (length tops)"
    using shown_sum_bounds [OF le tot(1)] by (simp_all add: S_def)
  moreover have "(100::rat) * of_nat (length tops) \<le> 100 * 4"
    using len by (intro mult_left_mono) simp_all
  ultimately have Sb: "0 \<le> S" "S \<le> 400" by linarith+
  note O = others_pct_small [OF err N Sb]
  have more: "length tops < length m \<longleftrightarrow> 4 < length m"
    by (auto simp: tops_def length_top_of)
  define others where "others = py_round1 (fmax (Finite 0) (fsub (Finite 100) (Finite s)))"
  have unfolded: "top_four_plus_others m =
     (if fgt others (Finite 0) \<and> length tops < length m
      then Inr (map (shown_bar tot) tops @ [\<lparr>bar_label = ''Others'', pct = others\<rparr>])
      else Inr (map (shown_bar tot) tops))"
    unfolding top_four_plus_others_def Let_def tot_def [symmetric] tops_def [symmetric]
    by (simp add: loop acc others_def)
  have o: "others = Finite (rnd_fin (max 0 (100 - S)))"
    and pos: "0 < rnd_fin (max 0 (100 - S)) \<longleftrightarrow> S < 100"
    using O by (simp_all add: others_def)
  show ?thesis
  proof (cases "4 < length m \<and> S < 100")
    case True
    then have "max 0 (100 - S) = 100 - S" by simp
    with True pos more show ?thesis
      unfolding unfolded o
      by (simp add: tot_def [symmetric] tops_def [symmetric] S_def [symmetric])
  next
    case False
    with pos more show ?thesis
      unfolding unfolded o
      by (auto simp: tot_def [symmetric] tops_def [symmetric] S_def [symmetric])
  qed
qed

subsection \<open>No division by zero\<close>

lemma float_of_nat_cases:
  "float_of_nat n = Inl OverflowError \<or>
   (\<exists>y. float_of_nat n = Inr (Finite y) \<and> y = rnd_fin (of_nat n))"
  by (auto simp: float_of_nat_def rnd_def Let_def)

lemma rnd_fin_1: "rnd_fin 1 = 1"
  using rnd_fin_representable [of 0 1] by simp

lemma rnd_fin_pos_nat: "0 < n \<Longrightarrow> 0 < rnd_fin (of_nat n)"
proof -
  assume "0 < n"
  then have "(1::rat) \<le> of_nat n" by simp
  then have "rnd_fin 1 \<le> rnd_fin (of_nat n)" by (intro rnd_fin_mono) simp_all
  then show ?thesis by (simp add: rnd_fin_1)
qed

lemma pct_of_no_zero_division:
  assumes "0 < tot"
  shows "pct_of tot cnt \<noteq> Inl ZeroDivisionError"
proof -
  consider "float_of_nat cnt = Inl OverflowError"
    | c where "float_of_nat cnt = Inr (Finite c)"
    using float_of_nat_cases [of cnt] by blast
  then show ?thesis
  proof cases
    case 1
    then show ?thesis by (simp add: pct_of_def)
  next
    case 2
    consider "float_of_nat tot = Inl OverflowError"
      | t where "float_of_nat tot = Inr (Finite t)" "t = rnd_fin (of_nat tot)"
      using float_of_nat_cases [of tot] by blast
    then show ?thesis
    proof cases
      case 1
      with 2 show ?thesis by (simp add: pct_of_def)
    next
      case (2 t)
      with rnd_fin_pos_nat [OF assms] have "t \<noteq> 0" by simp
      with 2 \<open>float_of_nat cnt = Inr (Finite c)\<close> show ?thesis
        by (auto simp: pct_of_def split: pyfloat.splits)
    qed
  qed
qed

lemma bars_loop_no_zero_division:
  assumes "0 < tot"
  shows "bars_loop tot tops items acc \<noteq> Inl ZeroDivisionError"
proof (induction tops arbitrary: items acc)
  case Nil
  show ?case by simp
next
  case (Cons x tops)
  obtain name cnt where x: "x = (name, cnt)" by (cases x)
  show ?case
    using pct_of_no_zero_division [OF assms, of cnt] Cons.IH
    by (cases "pct_of tot cnt") (simp_all add: x)
qed

lemma top_four_plus_others_no_zero_division:
  "top_four_plus_others m \<noteq> Inl ZeroDivisionError"
  using bars_loop_no_zero_division [OF total_of_pos, of m "top_of m" "[]" "Finite 0"]
  by (cases "bars_loop (total_of m) (top_of m) [] (Finite 0)")
     (auto simp: top_four_plus_others_def Let_def split: prod.splits)

subsection \<open>Rounding to one decimal adds at most a twentieth\<close>

lemma shown_pct_le_exact:
  assumes "cnt \<le> tot" "0 < tot" "tot \<le> 2 ^ 40"
  shows "shown_pct tot cnt \<le> exact_pct tot cnt + 1 / 20"
proof -
  define x where "x = exact_pct tot cnt"
  define q where "q = rnd_fin x"
  define D where "D = rhe (q * 10)"
  have t: "(0::rat) < of_nat tot" using assms(2) by simp
  have xb: "0 \<le> x" "x \<le> 100"
    using exact_pct_bounds [OF assms(1,2)] by (simp_all add: x_def)
  then have "\<bar>q - x\<bar> \<le> 2 powi (- 47)"
    unfolding q_def by (rule rnd_fin_error_128)
  moreover have "of_int D - 1 / 2 \<le> q * 10"
    using rhe_error [of "q * 10"] unfolding D_def by linarith
  ultimately have 1: "of_int D - 1 / 2 \<le> x * 10 + 10 * 2 powi (- 47)"
    by linarith
  have xt: "x * of_nat tot = of_nat cnt * 100"
    using t by (simp add: x_def exact_pct_def)
  have "(of_int D - 1 / 2) * (2 * of_nat tot) \<le> (x * 10 + 10 * 2 powi (- 47)) * (2 * of_nat tot)"
    using 1 t by (intro mult_right_mono) simp_all
  also have "\<dots> = of_nat cnt * 2000 + 20 * 2 powi (- 47) * of_nat tot"
    using xt by (simp add: algebra_simps)
  also have "20 * 2 powi (- 47) * (of_nat tot :: rat) \<le> 20 * 2 powi (- 47) * of_nat (2 ^ 40)"
    using assms(3) by (intro mult_left_mono) (simp_all only: of_nat_le_iff, simp)
  also have "20 * 2 powi (- 47) * (of_nat (2 ^ 40) :: rat) < 1"
    by (simp add: power_int_minus)
  finally have "(of_int D - 1 / 2) * (2 * of_nat tot) < of_nat cnt * 2000 + (1::rat)"
    by simp
  then have "(of_int ((2 * D - 1) * int tot) :: rat) < of_int (int cnt * 2000 + 1)"
    by (simp add: algebra_simps)
  then have "(2 * D - 1) * int tot < int cnt * 2000 + 1"
    by (simp only: of_int_less_iff)
  then have "(2 * D - 1) * int tot \<le> int cnt * 2000" by simp
  then have "(of_int ((2 * D - 1) * int tot) :: rat) \<le> of_int (int cnt * 2000)"
    by (simp only: of_int_le_iff)
  then have "(of_int D - 1 / 2) * (2 * of_nat tot) \<le> x * 10 * (2 * of_nat tot)"
    using xt by (simp add: algebra_simps)
  then have "of_int D - 1 / 2 \<le> x * 10"
    using t by (simp only: mult_le_cancel_right)
  then have "of_int D / 10 \<le> x + 1 / 20" by simp
  then show ?thesis
    by (simp add: shown_pct_def dec1_def D_def q_def x_def)
qed

lemma sum_list_insort_key:
  "sum_list (map g (insort_key f x xs)) = g x + sum_list (map g xs)"
  for g :: "'a \<Rightarrow> nat"
  by (induction xs) simp_all

lemma sum_list_sort_key: "sum_list (map g (sort_key f xs)) = sum_list (map g xs)"
  for g :: "'a \<Rightarrow> nat"
  by (induction xs) (simp_all add: sum_list_insort_key)

lemma sum_list_take_le: "sum_list (map g (take n xs)) \<le> sum_list (map g xs)"
  for g :: "'a \<Rightarrow> nat"
proof -
  have "sum_list (map g xs) = sum_list (map g (take n xs)) + sum_list (map g (drop n xs))"
    by (metis append_take_drop_id map_append sum_list_append)
  then show ?thesis by simp
qed

lemma top_of_sum_le: "sum_list (map snd (top_of m)) \<le> total_of m"
proof -
  have "sum_list (map snd (top_of m)) \<le> sum_list (map snd m)"
    using sum_list_take_le [of snd 4 "sorted_desc m"]
    by (simp add: top_of_def sorted_desc_def sum_list_sort_key)
  then show ?thesis using total_of_cases [of m] by linarith
qed

lemma exact_pct_sum:
  "sum_list (map (\<lambda>x. exact_pct tot (snd x)) items) =
     of_nat (sum_list (map snd items)) * 100 / of_nat tot"
  by (induction items) (simp_all add: exact_pct_def add_divide_distrib algebra_simps)

lemma shown_sum_le:
  assumes "\<forall>x\<in>set items. snd x \<le> tot" "0 < tot" "tot \<le> 2 ^ 40"
    "sum_list (map snd items) \<le> tot"
  shows "shown_sum tot items \<le> 100 + of_nat (length items) / 20"
proof -
  have "shown_sum tot items \<le>
        sum_list (map (\<lambda>x. exact_pct tot (snd x)) items) + of_nat (length items) / 20"
    using assms(1)
  proof (induction items)
    case Nil
    show ?case by (simp add: shown_sum_def)
  next
    case (Cons x items)
    then have "snd x \<le> tot" by simp
    from shown_pct_le_exact [OF this assms(2,3)] Cons show ?case
      by (simp add: shown_sum_def add_divide_distrib)
  qed
  moreover have "of_nat (sum_list (map snd items)) * 100 / (of_nat tot :: rat) \<le> 100"
  proof -
    have "(of_nat (sum_list (map snd items)) :: rat) \<le> of_nat tot"
      using assms(4) by (simp only: of_nat_le_iff)
    then show ?thesis using assms(2) by (simp add: field_simps)
  qed
  ultimately show ?thesis by (simp add: exact_pct_sum)
qed

lemma sorted_desc_ranks: "ranks (sorted_desc items) items"
proof -
  have "sorted (map (\<lambda>x. - int (snd x)) (sorted_desc items))"
    unfolding sorted_desc_def by (rule sorted_sort_key)
  then have "sorted_wrt (\<lambda>a b. snd b \<le> snd a) (sorted_desc items)"
    by (simp add: sorted_map sorted_wrt_iff_nth_less)
  moreover have "filter (\<lambda>x. snd x = v) (sorted_desc items) = filter (\<lambda>x. snd x = v) items" for v
    using sort_key_stable [of "\<lambda>x. - int (snd x)" "- int v" items] by (simp add: sorted_desc_def)
  ultimately show ?thesis by (simp add: ranks_def sorted_desc_def)
qed

lemma top_of_descending: "sorted_wrt (\<lambda>a b. snd b \<le> snd a) (top_of m)"
  using sorted_desc_ranks [of m] by (simp add: ranks_def top_of_def sorted_wrt_take)

lemma others_rnd:
  assumes "0 \<le> S" "S < 100"
  shows "Finite (rnd_fin (100 - S)) = rnd (100 - S)"
  using assms by (intro rnd_small [symmetric]) simp

text \<open>
  Claim C2.  On a mapping whose counts add up to at most \<open>2 ^ 40\<close> (the counts are
  numbers of stored notes), \<^verbatim>\<open>top_four_plus_others\<close> returns the bars of the top entries
  followed by nothing or by one bucket named Others, at most 5 buckets in all.  The bar of
  an entry carries \<^verbatim>\<open>round(cnt * 100.0 / total, 1)\<close>: the double nearest to the one-decimal
  rounding of the double nearest to \<open>cnt * 100 / total\<close>, where \<open>total\<close> is the sum of the
  counts, or 1 when that sum is 0.  Along these bars no percentage is greater than an
  earlier one.
\<close>

theorem top_four_plus_others_buckets:
  assumes "total_of m \<le> 2 ^ 40"
  shows
    "(\<exists>rest. top_four_plus_others m = Inr (map (shown_bar (total_of m)) (top_of m) @ rest) \<and>
        (rest = [] \<or> (\<exists>p. rest = [\<lparr>bar_label = ''Others'', pct = p\<rparr>])) \<and>
        length (map (shown_bar (total_of m)) (top_of m) @ rest) \<le> 5) \<and>
     total_of m = (if sum_list (map snd m) = 0 then 1 else sum_list (map snd m)) \<and>
     (\<forall>x\<in>set (top_of m).
        pct_of (total_of m) (snd x) = Inr (pct (shown_bar (total_of m) x)) \<and>
        pct (shown_bar (total_of m) x) =
          rnd (dec1 (rnd_fin (of_nat (snd x) * 100 / of_nat (total_of m))))) \<and>
     sorted_wrt (\<lambda>a b. \<not> fgt (pct b) (pct a)) (map (shown_bar (total_of m)) (top_of m))"
proof -
  define tot where "tot = total_of m"
  have tot: "0 < tot" "tot \<le> 2 ^ 40" using assms total_of_pos by (simp_all add: tot_def)
  have le: "snd x \<le> tot" if "x \<in> set (top_of m)" for x
    using that set_top_of [of m] total_of_ge [of x m] by (auto simp: tot_def)
  have 1: "\<exists>rest. top_four_plus_others m = Inr (map (shown_bar tot) (top_of m) @ rest) \<and>
        (rest = [] \<or> (\<exists>p. rest = [\<lparr>bar_label = ''Others'', pct = p\<rparr>])) \<and>
        length (map (shown_bar tot) (top_of m) @ rest) \<le> 5"
    unfolding top_four_plus_others_small [OF assms] tot_def [symmetric]
    by (auto simp: length_top_of)
  have 2: "tot = (if sum_list (map snd m) = 0 then 1 else sum_list (map snd m))"
    by (simp add: tot_def total_of_def Let_def)
  have 3: "\<forall>x\<in>set (top_of m).
        pct_of tot (snd x) = Inr (pct (shown_bar tot x)) \<and>
        pct (shown_bar tot x) = rnd (dec1 (rnd_fin (of_nat (snd x) * 100 / of_nat tot)))"
    using le pct_of_small [OF _ tot] rnd_shown_pct [OF _ tot(1)]
    by (simp add: shown_bar_def shown_pct_def exact_pct_def)
  have "sorted_wrt (\<lambda>a b. \<not> fgt (pct (shown_bar tot b)) (pct (shown_bar tot a))) (top_of m)"
  proof (rule sorted_wrt_mono_rel [OF _ top_of_descending])
    fix a b
    assume a: "a \<in> set (top_of m)" and b: "b \<in> set (top_of m)" and "snd b \<le> snd a"
    then have "shown_pct tot (snd b) \<le> shown_pct tot (snd a)"
      using le [OF a] tot(1) by (intro shown_pct_mono)
    moreover have "0 \<le> shown_pct tot (snd b)"
      using shown_pct_bounds [OF le [OF b] tot(1)] by simp
    ultimately have "rnd_fin (shown_pct tot (snd b)) \<le> rnd_fin (shown_pct tot (snd a))"
      by (intro rnd_fin_mono)
    then show "\<not> fgt (pct (shown_bar tot b)) (pct (shown_bar tot a))"
      by (simp add: shown_bar_def rnd_shown_pct [OF le [OF a] tot(1)]
          rnd_shown_pct [OF le [OF b] tot(1)])
  qed
  then have 4: "sorted_wrt (\<lambda>a b. \<not> fgt (pct b) (pct a)) (map (shown_bar tot) (top_of m))"
    by (simp add: sorted_wrt_map)
  from 1 2 3 4 show ?thesis
    unfolding tot_def by (intro conjI)
qed

text \<open>
  Claim C3.  On a mapping with distinct labels, as a dict has them, whose counts add up to
  at most \<open>2 ^ 40\<close>, the bars are those of the first 4 entries of the dict ranked by count,
  the largest count first.  They are followed by the bucket Others exactly when the dict
  has more than 4 labels and 100 minus the sum of the 4 percentages is positive; the bucket
  then carries that remainder, as a double.
\<close>

theorem top_four_plus_others_others:
  assumes "distinct (map fst m)" "total_of m \<le> 2 ^ 40"
  shows
    "top_of m = take 4 (sorted_desc m) \<and> ranks (sorted_desc m) m \<and>
     top_four_plus_others m =
       Inr (map (shown_bar (total_of m)) (top_of m) @
            (if 4 < card (fst ` set m) \<and> 0 < 100 - shown_sum (total_of m) (top_of m)
             then [\<lparr>bar_label = ''Others'',
                    pct = rnd (100 - shown_sum (total_of m) (top_of m))\<rparr>]
             else []))"
proof -
  have "card (fst ` set m) = length m"
    using distinct_card [OF assms(1)] by simp
  moreover have "\<forall>x\<in>set (top_of m). snd x \<le> total_of m"
    using set_top_of [of m] total_of_ge [of _ m] by blast
  then have "0 \<le> shown_sum (total_of m) (top_of m)"
    using shown_sum_bounds [of "top_of m" "total_of m"] total_of_pos [of m] by blast
  ultimately show ?thesis
    using sorted_desc_ranks [of m]
    by (simp add: top_four_plus_others_small [OF assms(2)] top_of_def others_rnd)
qed

lemma dec1_rnd_fin:
  assumes "0 \<le> d" "d \<le> 100" "d * 10 = of_int N"
  shows "dec1 (rnd_fin d) = d"
proof -
  have "\<bar>rnd_fin d - d\<bar> \<le> 2 powi (- 47)" by (rule rnd_fin_error_128 [OF assms(1,2)])
  moreover have "(2::rat) powi (- 47) \<le> 1 / 4096" by (simp add: power_int_minus)
  ultimately have e: "\<bar>rnd_fin d - d\<bar> \<le> 1 / 4096" by linarith
  define z where "z = rnd_fin d - d"
  have "rnd_fin d * 10 - of_int N = 10 * z"
    using assms(3) by (simp add: z_def algebra_simps)
  then have "\<bar>rnd_fin d * 10 - of_int N\<bar> = \<bar>10 * z\<bar>" by (simp only:)
  also have "\<dots> = 10 * \<bar>z\<bar>" by (simp add: abs_mult)
  also have "\<dots> \<le> 10 * (1 / 4096)" using e by (simp add: z_def)
  also have "\<dots> < 1 / 2" by simp
  finally have "rhe (rnd_fin d * 10) = N" by (rule rhe_near)
  then show ?thesis using assms(3) by (simp add: dec1_def)
qed

text \<open>A bucket whose percentage is the double nearest to the one-decimal number \<open>d\<close>.\<close>

lemma decimal_bar:
  assumes "pct b = Finite (rnd_fin d)" "0 \<le> d" "d \<le> 100" "d * 10 = of_int N"
  shows "dec1 (pct_value b) = d" "pct b = Finite (pct_value b)" "pct b = rnd (dec1 (pct_value b))"
    "\<bar>pct_value b - dec1 (pct_value b)\<bar> \<le> 2 powi (- 47)"
proof -
  have v: "pct_value b = rnd_fin d" by (simp add: pct_value_def assms(1))
  show d: "dec1 (pct_value b) = d" unfolding v by (rule dec1_rnd_fin [OF assms(2,3,4)])
  show "pct b = Finite (pct_value b)" by (simp add: v assms(1))
  show "pct b = rnd (dec1 (pct_value b))"
    unfolding d assms(1) using assms(2,3) by (intro rnd_small [symmetric]) simp
  show "\<bar>pct_value b - dec1 (pct_value b)\<bar> \<le> 2 powi (- 47)"
    unfolding d unfolding v by (rule rnd_fin_error_128 [OF assms(2,3)])
qed

lemma sum_list_add_error:
  fixes f g :: "'a \<Rightarrow> rat"
  assumes "\<forall>b\<in>set bs. f b \<le> g b + e"
  shows "sum_list (map f bs) \<le> sum_list (map g bs) + of_nat (length bs) * e"
  using assms by (induction bs) (auto simp: algebra_simps)

text \<open>
  Claim C4, as the code has it.  On a mapping whose counts add up to at most \<open>2 ^ 40\<close>,
  every returned percentage is the double nearest to a number of one decimal, and these
  one-decimal numbers add up to at most 100 plus 0.05 for each bucket.  The returned doubles
  are not these decimals: each lies within \<open>2 powi (- 47)\<close> of its decimal, and the doubles
  add up to at most 100 plus 0.05 for each bucket plus \<open>2 powi (- 47)\<close> for each bucket.
\<close>

theorem top_four_plus_others_sum:
  assumes "total_of m \<le> 2 ^ 40"
  shows "\<exists>bs. top_four_plus_others m = Inr bs \<and>
      (\<forall>b\<in>set bs. pct b = rnd (dec1 (pct_value b)) \<and> pct b = Finite (pct_value b) \<and>
                   \<bar>pct_value b - dec1 (pct_value b)\<bar> \<le> 2 powi (- 47)) \<and>
      sum_list (map (\<lambda>b. dec1 (pct_value b)) bs) \<le> 100 + of_nat (length bs) / 20 \<and>
      sum_list (map pct_value bs) \<le>
        100 + of_nat (length bs) / 20 + of_nat (length bs) * 2 powi (- 47)"
proof -
  define tot where "tot = total_of m"
  define tops where "tops = top_of m"
  define S where "S = shown_sum tot tops"
  define others where "others = (4 < length m \<and> S < 100)"
  define rest where "rest =
    (if others then [\<lparr>bar_label = ''Others'', pct = Finite (rnd_fin (100 - S))\<rparr>] else [])"
  define bs where "bs = map (shown_bar tot) tops @ rest"
  have result: "top_four_plus_others m = Inr bs"
    by (simp add: top_four_plus_others_small [OF assms] bs_def rest_def others_def S_def
        tot_def tops_def)
  have tot: "0 < tot" "tot \<le> 2 ^ 40" using assms total_of_pos by (simp_all add: tot_def)
  have le: "\<forall>x\<in>set tops. snd x \<le> tot"
    using set_top_of [of m] total_of_ge [of _ m] by (auto simp: tops_def tot_def)
  have Sb: "0 \<le> S" using shown_sum_bounds [OF le tot(1)] by (simp add: S_def)
  obtain NS where NS: "S * 10 = of_int NS"
    using shown_sum_decimal [of tot tops] by (auto simp: S_def)
  have top_bar: "dec1 (pct_value (shown_bar tot x)) = shown_pct tot (snd x) \<and>
      pct (shown_bar tot x) = Finite (pct_value (shown_bar tot x)) \<and>
      pct (shown_bar tot x) = rnd (dec1 (pct_value (shown_bar tot x))) \<and>
      \<bar>pct_value (shown_bar tot x) - dec1 (pct_value (shown_bar tot x))\<bar> \<le> 2 powi (- 47)"
    if "x \<in> set tops" for x
  proof -
    from that le have c: "snd x \<le> tot" by blast
    obtain N where N: "shown_pct tot (snd x) * 10 = of_int N"
      using shown_pct_decimal by blast
    have p: "pct (shown_bar tot x) = Finite (rnd_fin (shown_pct tot (snd x)))"
      by (simp add: shown_bar_def rnd_shown_pct [OF c tot(1)])
    from decimal_bar [OF p _ _ N] shown_pct_bounds [OF c tot(1)] show ?thesis by blast
  qed
  have other_bar: "dec1 (pct_value b) = 100 - S \<and> pct b = Finite (pct_value b) \<and>
      pct b = rnd (dec1 (pct_value b)) \<and> \<bar>pct_value b - dec1 (pct_value b)\<bar> \<le> 2 powi (- 47)"
    if "b \<in> set rest" for b
  proof -
    from that have o: others and p: "pct b = Finite (rnd_fin (100 - S))"
      by (auto simp: rest_def split: if_splits)
    then have "S < 100" by (simp add: others_def)
    have "(100 - S) * 10 = of_int (1000 - NS)" using NS by (simp add: algebra_simps)
    from decimal_bar [OF p _ _ this] Sb \<open>S < 100\<close> show ?thesis by simp
  qed
  have all: "\<forall>b\<in>set bs. pct b = rnd (dec1 (pct_value b)) \<and> pct b = Finite (pct_value b) \<and>
                   \<bar>pct_value b - dec1 (pct_value b)\<bar> \<le> 2 powi (- 47)"
    using top_bar other_bar by (auto simp: bs_def)
  have "map (\<lambda>b. dec1 (pct_value b)) (map (shown_bar tot) tops) =
        map (\<lambda>x. shown_pct tot (snd x)) tops"
    using top_bar by simp
  then have tops_sum: "sum_list (map (\<lambda>b. dec1 (pct_value b)) (map (shown_bar tot) tops)) = S"
    by (simp only: S_def shown_sum_def)
  have dec_sum: "sum_list (map (\<lambda>b. dec1 (pct_value b)) bs) \<le> 100 + of_nat (length bs) / 20"
  proof (cases others)
    case True
    then obtain b where r: "rest = [b]"
      by (simp add: rest_def)
    then have "dec1 (pct_value b) = 100 - S"
      using other_bar [of b] by simp
    with r have "sum_list (map (\<lambda>b. dec1 (pct_value b)) rest) = 100 - S"
      by simp
    with tops_sum have "sum_list (map (\<lambda>b. dec1 (pct_value b)) bs) = 100"
      by (simp add: bs_def)
    then show ?thesis by simp
  next
    case False
    then have "bs = map (shown_bar tot) tops" by (simp add: bs_def rest_def)
    moreover have "S \<le> 100 + of_nat (length tops) / 20"
      unfolding S_def using top_of_sum_le [of m]
      by (intro shown_sum_le [OF le tot]) (simp add: tops_def tot_def)
    ultimately show ?thesis using tops_sum by simp
  qed
  have "\<forall>b\<in>set bs. pct_value b \<le> dec1 (pct_value b) + 2 powi (- 47)"
  proof
    fix b
    assume "b \<in> set bs"
    with all have "\<bar>pct_value b - dec1 (pct_value b)\<bar> \<le> 2 powi (- 47)" by blast
    then show "pct_value b \<le> dec1 (pct_value b) + 2 powi (- 47)" by linarith
  qed
  then have "sum_list (map pct_value bs) \<le>
        sum_list (map (\<lambda>b. dec1 (pct_value b)) bs) + of_nat (length bs) * 2 powi (- 47)"
    by (rule sum_list_add_error)
  with dec_sum have "sum_list (map pct_value bs) \<le>
        100 + of_nat (length bs) / 20 + of_nat (length bs) * 2 powi (- 47)"
    by linarith
  with result all dec_sum show ?thesis by blast
qed

text \<open>
  Claim C9.  The empty mapping gives the empty list.  The divisor \<^verbatim>\<open>total\<close> is at least
  1: it is the sum of the counts, and 1 when that sum is 0.  Neither one percentage nor the
  whole function fails on a division by zero, whatever the mapping.
\<close>

theorem top_four_plus_others_total:
  "top_four_plus_others [] = Inr [] \<and>
   1 \<le> total_of m \<and>
   total_of m = (if sum_list (map snd m) = 0 then 1 else sum_list (map snd m)) \<and>
   pct_of (total_of m) cnt \<noteq> Inl ZeroDivisionError \<and>
   top_four_plus_others m \<noteq> Inl ZeroDivisionError"
proof -
  have "top_four_plus_others [] = Inr []"
    by (simp add: top_four_plus_others_def top_of_def sorted_desc_def Let_def)
  moreover have "1 \<le> total_of m" using total_of_pos [of m] by simp
  moreover have "total_of m = (if sum_list (map snd m) = 0 then 1 else sum_list (map snd m))"
    by (simp add: total_of_def Let_def)
  ultimately show ?thesis
    using pct_of_no_zero_division [OF total_of_pos] top_four_plus_others_no_zero_division
    by blast
qed

lemma two_teachers_eval:
  "total_of two_teachers = 3"
  "top_of two_teachers = [(''Mr. Rahman'', 2), (''Ms. Ayesha'', 1)]"
  "shown_pct 3 2 = 667 / 10" "shown_pct 3 (Suc 0) = 333 / 10"
  by code_simp+

theorem top_four_plus_others_buckets_witness:
  "total_of two_teachers \<le> 2 ^ 40 \<and>
   (\<exists>rest. top_four_plus_others two_teachers =
        Inr ([\<lparr>bar_label = ''Mr. Rahman'', pct = rnd (667 / 10)\<rparr>,
              \<lparr>bar_label = ''Ms. Ayesha'', pct = rnd (333 / 10)\<rparr>] @ rest) \<and>
      length ([\<lparr>bar_label = ''Mr. Rahman'', pct = rnd (667 / 10)\<rparr>,
               \<lparr>bar_label = ''Ms. Ayesha'', pct = rnd (333 / 10)\<rparr>] @ rest) \<le> 5) \<and>
   pct_of 3 2 = Inr (rnd (667 / 10)) \<and> pct_of 3 (Suc 0) = Inr (rnd (333 / 10)) \<and>
   rnd (667 / 10) = rnd (dec1 (rnd_fin (2 * 100 / 3))) \<and>
   \<not> fgt (rnd (333 / 10)) (rnd (667 / 10))"
proof -
  have b: "total_of two_teachers \<le> 2 ^ 40"
    by (simp add: two_teachers_eval)
  note T = top_four_plus_others_buckets [OF b, unfolded two_teachers_eval]
  have bars: "map (shown_bar 3) [(''Mr. Rahman'', 2), (''Ms. Ayesha'', 1)] =
      [\<lparr>bar_label = ''Mr. Rahman'', pct = rnd (667 / 10)\<rparr>,
       \<lparr>bar_label = ''Ms. Ayesha'', pct = rnd (333 / 10)\<rparr>]"
    by (simp add: shown_bar_def two_teachers_eval)
  from T [THEN conjunct1] have 1: "\<exists>rest. top_four_plus_others two_teachers =
        Inr ([\<lparr>bar_label = ''Mr. Rahman'', pct = rnd (667 / 10)\<rparr>,
              \<lparr>bar_label = ''Ms. Ayesha'', pct = rnd (333 / 10)\<rparr>] @ rest) \<and>
      length ([\<lparr>bar_label = ''Mr. Rahman'', pct = rnd (667 / 10)\<rparr>,
               \<lparr>bar_label = ''Ms. Ayesha'', pct = rnd (333 / 10)\<rparr>] @ rest) \<le> 5"
    unfolding bars by blast
  from T [THEN conjunct2, THEN conjunct2, THEN conjunct1]
  have 2: "pct_of 3 2 = Inr (rnd (667 / 10))" "pct_of 3 (Suc 0) = Inr (rnd (333 / 10))"
    "rnd (667 / 10) = rnd (dec1 (rnd_fin (2 * 100 / 3)))"
    by (simp_all add: shown_bar_def two_teachers_eval)
  from T [THEN conjunct2, THEN conjunct2, THEN conjunct2]
  have 3: "\<not> fgt (rnd (333 / 10)) (rnd (667 / 10))"
    unfolding bars by simp
  from b 1 2 3 show ?thesis by (intro conjI)
qed

lemma teacher_example_eval:
  "total_of teacher_example = 26"
  "top_of teacher_example = [(''T1'', 10), (''T2'', 7), (''T3'', 5), (''T4'', 3)]"
  "card (fst ` set teacher_example) = 5"
  "distinct (map fst teacher_example)"
  "shown_pct 26 10 = 385 / 10" "shown_pct 26 7 = 269 / 10"
  "shown_pct 26 5 = 192 / 10" "shown_pct 26 3 = 115 / 10"
  by code_simp+

theorem top_four_plus_others_others_witness:
  "distinct (map fst teacher_example) \<and> total_of teacher_example = 26 \<and>
   top_four_plus_others teacher_example =
     Inr [\<lparr>bar_label = ''T1'', pct = rnd (385 / 10)\<rparr>,
          \<lparr>bar_label = ''T2'', pct = rnd (269 / 10)\<rparr>,
          \<lparr>bar_label = ''T3'', pct = rnd (192 / 10)\<rparr>,
          \<lparr>bar_label = ''T4'', pct = rnd (115 / 10)\<rparr>,
          \<lparr>bar_label = ''Others'', pct = rnd (39 / 10)\<rparr>]"
proof -
  have b: "total_of teacher_example \<le> 2 ^ 40"
    by (simp add: teacher_example_eval)
  have s: "shown_sum 26 [(''T1'', 10), (''T2'', 7), (''T3'', 5), (''T4'', 3)] = 961 / 10"
    by (simp add: shown_sum_def teacher_example_eval)
  from top_four_plus_others_others [OF teacher_example_eval(4) b, unfolded teacher_example_eval s]
  show ?thesis
    by (simp add: shown_bar_def teacher_example_eval)
qed

lemma four_ties_eval:
  "total_of four_ties = 400"
  "top_of four_ties = [(''a'', 103), (''b'', 99), (''c'', 99), (''d'', 99)]"
  "shown_pct 400 103 = 258 / 10" "shown_pct 400 99 = 248 / 10"
  "rnd_fin (258 / 10) = 7262054399134925 / 281474976710656"
  "rnd_fin (248 / 10) = 6980579422424269 / 281474976710656"
  by code_simp+

lemma four_ties_bars:
  "top_four_plus_others four_ties =
     Inr [\<lparr>bar_label = ''a'', pct = Finite (7262054399134925 / 281474976710656)\<rparr>,
          \<lparr>bar_label = ''b'', pct = Finite (6980579422424269 / 281474976710656)\<rparr>,
          \<lparr>bar_label = ''c'', pct = Finite (6980579422424269 / 281474976710656)\<rparr>,
          \<lparr>bar_label = ''d'', pct = Finite (6980579422424269 / 281474976710656)\<rparr>]"
proof -
  have b: "total_of four_ties \<le> 2 ^ 40"
    by (simp add: four_ties_eval)
  have "rnd (258 / 10) = Finite (rnd_fin (258 / 10))" "rnd (248 / 10) = Finite (rnd_fin (248 / 10))"
    by (simp_all add: rnd_small)
  hence v: "rnd (258 / 10) = Finite (7262054399134925 / 281474976710656)"
    "rnd (248 / 10) = Finite (6980579422424269 / 281474976710656)"
    by (simp_all only: four_ties_eval)
  show ?thesis
    unfolding top_four_plus_others_small [OF b] four_ties_eval
    using v by (simp add: shown_bar_def four_ties_eval shown_sum_def)
qed

lemma four_ties_decimals:
  "dec1 (7262054399134925 / 281474976710656) = 258 / 10"
  "dec1 (6980579422424269 / 281474976710656) = 248 / 10"
  by code_simp+

theorem top_four_plus_others_sum_witness:
  "total_of four_ties \<le> 2 ^ 40 \<and>
   (\<exists>bs. top_four_plus_others four_ties = Inr bs \<and>
      list_all (\<lambda>b. pct b = rnd (dec1 (pct_value b))) bs \<and>
      map (\<lambda>b. dec1 (pct_value b)) bs = [258 / 10, 248 / 10, 248 / 10, 248 / 10] \<and>
      sum_list (map (\<lambda>b. dec1 (pct_value b)) bs) \<le> 100 + 4 / 20 \<and>
      sum_list (map pct_value bs) \<le> 100 + 4 / 20 + 4 * 2 powi (- 47))"
proof -
  have b: "total_of four_ties \<le> 2 ^ 40"
    by (simp add: four_ties_eval)
  from top_four_plus_others_sum [OF b] obtain bs where bs: "top_four_plus_others four_ties = Inr bs"
    and all: "\<forall>b\<in>set bs. pct b = rnd (dec1 (pct_value b))"
    and d: "sum_list (map (\<lambda>b. dec1 (pct_value b)) bs) \<le> 100 + of_nat (length bs) / 20"
    and e: "sum_list (map pct_value bs) \<le>
        100 + of_nat (length bs) / 20 + of_nat (length bs) * 2 powi (- 47)"
    by blast
  from bs four_ties_bars have bs': "bs =
         [\<lparr>bar_label = ''a'', pct = Finite (7262054399134925 / 281474976710656)\<rparr>,
          \<lparr>bar_label = ''b'', pct = Finite (6980579422424269 / 281474976710656)\<rparr>,
          \<lparr>bar_label = ''c'', pct = Finite (6980579422424269 / 281474976710656)\<rparr>,
          \<lparr>bar_label = ''d'', pct = Finite (6980579422424269 / 281474976710656)\<rparr>]"
    by simp
  have 1: "map (\<lambda>b. dec1 (pct_value b)) bs = [258 / 10, 248 / 10, 248 / 10, 248 / 10]"
    by (simp add: bs' pct_value_def four_ties_decimals)
  have len: "length bs = 4"
    by (simp add: bs')
  from d e have 3: "sum_list (map (\<lambda>b. dec1 (pct_value b)) bs) \<le> 100 + 4 / 20"
    and 4: "sum_list (map pct_value bs) \<le> 100 + 4 / 20 + 4 * 2 powi (- 47)"
    unfolding len by simp_all
  from all have 0: "list_all (\<lambda>b. pct b = rnd (dec1 (pct_value b))) bs"
    by (simp add: list_all_iff)
  show ?thesis
    by (intro conjI exI [of _ bs] b bs 0 1 3 4)
qed

text \<open>
  Where the bound of 100 plus 0.05 for each bucket fails for the percentages as they are
  returned: the counts 103, 99, 99, 99 give the four doubles nearest to 25.8, 24.8, 24.8
  and 24.8.  Each of them lies above its decimal, and their sum exceeds 100.2, that is
  100 plus 0.05 for each of the 4 buckets, by \<open>1 / 351843720888320\<close>, about 2.8e-15.
\<close>

theorem top_four_plus_others_sum_counterexample:
  "\<exists>bs. top_four_plus_others four_ties = Inr bs \<and> length bs = 4 \<and>
      map bar_label bs = [''a'', ''b'', ''c'', ''d''] \<and>
      map (\<lambda>b. dec1 (pct_value b)) bs = [258 / 10, 248 / 10, 248 / 10, 248 / 10] \<and>
      list_all (\<lambda>b. dec1 (pct_value b) < pct_value b) bs \<and>
      100 + of_nat (length bs) / 20 < sum_list (map pct_value bs) \<and>
      sum_list (map pct_value bs) - (100 + of_nat (length bs) / 20) = 1 / 351843720888320"
  by (rule exI [of _ "[\<lparr>bar_label = ''a'', pct = Finite (7262054399134925 / 281474976710656)\<rparr>,
          \<lparr>bar_label = ''b'', pct = Finite (6980579422424269 / 281474976710656)\<rparr>,
          \<lparr>bar_label = ''c'', pct = Finite (6980579422424269 / 281474976710656)\<rparr>,
          \<lparr>bar_label = ''d'', pct = Finite (6980579422424269 / 281474976710656)\<rparr>]"])
    (simp add: four_ties_bars pct_value_def four_ties_decimals)

theorem top_four_plus_others_total_witness:
  "total_of [(''Nobody'', 0)] = 1 \<and>
   pct_of (total_of [(''Nobody'', 0)]) 0 \<noteq> Inl ZeroDivisionError \<and>
   top_four_plus_others [(''Nobody'', 0)] \<noteq> Inl ZeroDivisionError \<and>
   top_four_plus_others [] = Inr []"
proof -
  note T = top_four_plus_others_total [of "[(''Nobody'', 0)]" 0]
  from T have "total_of [(''Nobody'', 0)] = 1" by simp
  with T show ?thesis by auto
qed

section \<open>Only approved notes count\<close>

lemma window_notes_approved:
  "window_notes db start end' =
     filter (\<lambda>n. dt_le start (created_at n) \<and> dt_le (created_at n) end') (approved_notes db)"
  by (simp add: window_notes_def approved_notes_def conj_commute conj_left_commute)

lemma agree_lookups:
  assumes "agree_on_approved a b"
  shows "get_class_section a = get_class_section b" "get_teacher a = get_teacher b"
    "get_staff a = get_staff b" "get_student a = get_student b"
    "receiver_teacher a = receiver_teacher b" "receiver_staff a = receiver_staff b"
    "receiver_student a = receiver_student b" "sec_label a = sec_label b"
    "teacher_label a = teacher_label b" "approved_notes a = approved_notes b"
    "window_notes a = window_notes b"
  using assms
  by (auto simp: agree_on_approved_def get_class_section_def get_teacher_def get_staff_def
      get_student_def receiver_teacher_def receiver_staff_def receiver_student_def
      sec_label_def teacher_label_def window_notes_approved fun_eq_iff split: option.splits)

lemma agree_chart:
  assumes "agree_on_approved a b"
  shows "chart_note a = chart_note b" "chart_bars a = chart_bars b"
proof -
  show c: "chart_note a = chart_note b"
    by (simp add: fun_eq_iff chart_note_def student_chart_label_def agree_lookups [OF assms])
  show "chart_bars a = chart_bars b"
    by (simp add: fun_eq_iff chart_bars_def c)
qed

lemma agree_window_leaders:
  assumes "agree_on_approved a b"
  shows "window_leaders a = window_leaders b"
  by (simp add: fun_eq_iff window_leaders_def window_tallies_def agree_lookups [OF assms])

lemma wall_notes_approved:
  "set (take 200 (newest_first (approved_notes db))) \<subseteq> {n \<in> set (note_table db). status n = ''approved''}"
proof -
  have "set (insert_newest x ys) = insert x (set ys)" for x ys
    by (induction ys) auto
  then have "set (foldr insert_newest ns []) = set ns" for ns
    by (induction ns) auto
  then have "set (newest_first (approved_notes db)) = {n \<in> set (note_table db). status n = ''approved''}"
    by (auto simp: newest_first_def approved_notes_def)
  then show ?thesis
    using set_take_subset by fastforce
qed

lemma sum_update:
  "sum_list (map snd (AList.update k v d)) + dict_get d k 0 = sum_list (map snd d) + (v::nat)"
  by (induction d) (auto simp: dict_get_def)

lemma sum_bump: "sum_list (map snd (bump d k)) = sum_list (map snd d) + 1"
  using sum_update [of k "dict_get d k 0 + 1" d] by (simp add: bump_def)

lemma counted_chart_note: "counted (chart_note db c n) \<le> counted c + 1"
  by (auto simp: chart_note_def counted_def sum_bump split: option.splits)

lemma counted_foldl: "counted (foldl (chart_note db) c ns) \<le> counted c + length ns"
proof (induction ns arbitrary: c)
  case Nil
  show ?case by simp
next
  case (Cons n ns)
  have "counted (foldl (chart_note db) (chart_note db c n) ns) \<le> counted (chart_note db c n) + length ns"
    by (rule Cons.IH)
  also have "\<dots> \<le> counted c + 1 + length ns"
    using counted_chart_note [of db c n] by simp
  finally show ?case by simp
qed

lemma total_of_le: "total_of m \<le> max 1 (sum_list (map snd m))"
  using total_of_cases [of m] by auto

lemma top_four_plus_others_returns:
  assumes "sum_list (map snd m) \<le> 200"
  shows "\<exists>bs. top_four_plus_others m = Inr bs"
proof -
  have "total_of m \<le> 200"
    using total_of_le [of m] assms by simp
  also have "(200::nat) \<le> 2 ^ 40"
    by simp
  finally show ?thesis
    using top_four_plus_others_small [of m] by blast
qed

lemma chart_bars_returns:
  assumes "length ns \<le> 200"
  shows "\<exists>b. chart_bars db ns = Inr b"
proof -
  define c where "c = foldl (chart_note db) no_counts ns"
  have "counted c \<le> counted no_counts + length ns"
    unfolding c_def by (rule counted_foldl)
  with assms have le: "counted c \<le> 200"
    by (simp add: counted_def no_counts_def)
  obtain t where t: "top_four_plus_others (teacher_counts c) = Inr t"
    using top_four_plus_others_returns [of "teacher_counts c"] le by (auto simp: counted_def)
  obtain s where s: "top_four_plus_others (student_counts c) = Inr s"
    using top_four_plus_others_returns [of "student_counts c"] le by (auto simp: counted_def)
  obtain f where f: "top_four_plus_others (staff_counts c) = Inr f"
    using top_four_plus_others_returns [of "staff_counts c"] le by (auto simp: counted_def)
  show ?thesis
    unfolding chart_bars_def Let_def c_def [symmetric] by (simp add: t s f)
qed

lemma wall_returns:
  "\<exists>b. wall db = Inr \<lparr>wall_notes = take 200 (newest_first (approved_notes db)), wall_bars = b\<rparr>"
proof -
  obtain b where "chart_bars db (take 200 (newest_first (approved_notes db))) = Inr b"
    using chart_bars_returns [of "take 200 (newest_first (approved_notes db))" db] by auto
  then show ?thesis
    by (simp add: wall_def Let_def)
qed

text \<open>
  Claim C6.  Two stores with the same sections, students, teachers and staff and the same
  approved notes, which may differ in any number of pending or hidden notes, give the same
  leaders for every window, the same certificate for every category and rank, the same
  leaders page and the same wall with its chart bars.  The wall always comes back, with
  the 200 newest approved notes, and every note listed on it is an approved note of the
  store.
\<close>

theorem only_approved_notes_count:
  assumes "agree_on_approved a b"
  shows "window_leaders a start end' = window_leaders b start end' \<and>
    compute_leaders now a = compute_leaders now b \<and>
    certificate a category rank = certificate b category rank \<and>
    leaders a = leaders b \<and>
    wall a = wall b \<and>
    (\<exists>page. wall a = Inr page \<and>
       wall_notes page = take 200 (newest_first (approved_notes a)) \<and>
       (\<forall>n\<in>set (wall_notes page). status n = ''approved'' \<and> n \<in> set (note_table a)))"
proof -
  note L = agree_lookups [OF assms] agree_chart [OF assms] agree_window_leaders [OF assms]
  have 1: "window_leaders a start end' = window_leaders b start end'"
    by (simp add: L)
  have 2: "compute_leaders now a = compute_leaders now b"
    unfolding compute_leaders_def agree_window_leaders [OF assms] by (rule refl)
  have counts: "teacher_cert_counts a = teacher_cert_counts b"
    "staff_cert_counts a = staff_cert_counts b" "section_cert_counts a = section_cert_counts b"
    unfolding teacher_cert_counts_def staff_cert_counts_def section_cert_counts_def L
    by (rule refl)+
  have "certificate_label a = certificate_label b"
    by (intro ext) (simp only: certificate_label_def counts L)
  then have 3: "certificate a category rank = certificate b category rank"
    unfolding certificate_def by (simp only:)
  have 4: "leaders a = leaders b"
    unfolding leaders_def L by (rule refl)
  have 5: "wall a = wall b"
    unfolding wall_def L by (rule refl)
  obtain bs where w: "wall a = Inr \<lparr>wall_notes = take 200 (newest_first (approved_notes a)), wall_bars = bs\<rparr>"
    using wall_returns [of a] by blast
  have 6: "\<exists>page. wall a = Inr page \<and>
       wall_notes page = take 200 (newest_first (approved_notes a)) \<and>
       (\<forall>n\<in>set (wall_notes page). status n = ''approved'' \<and> n \<in> set (note_table a))"
    using wall_notes_approved [of a] unfolding w by auto
  from 1 2 3 4 5 6 show ?thesis by (intro conjI)
qed

lemma mixed_db_eval:
  "agree_on_approved mixed_db (seed_db approved_part)"
  "length (note_table mixed_db) = 8"
  "length (note_table (seed_db approved_part)) = 5"
  "map note_id (take 200 (newest_first (approved_notes mixed_db))) = [5, 4, 3, 2, 1]"
  "map status (filter (\<lambda>n. note_id n \<notin> set [5, 4, 3, 2, 1]) (note_table mixed_db)) =
     [''pending'', ''hidden'', ''pending'']"
  "certificate mixed_db ''teacher'' 1 = Certificate ''teacher'' 1 ''Mr. Rahman''"
  by code_simp+

theorem only_approved_notes_count_witness:
  "agree_on_approved mixed_db (seed_db approved_part) \<and>
   length (note_table mixed_db) = 8 \<and> length (note_table (seed_db approved_part)) = 5 \<and>
   window_leaders mixed_db epoch (at_noon 2025 9 10) =
     window_leaders (seed_db approved_part) epoch (at_noon 2025 9 10) \<and>
   compute_leaders (at_noon 2025 9 10) mixed_db =
     compute_leaders (at_noon 2025 9 10) (seed_db approved_part) \<and>
   certificate (seed_db approved_part) ''teacher'' 1 = Certificate ''teacher'' 1 ''Mr. Rahman'' \<and>
   leaders mixed_db = leaders (seed_db approved_part) \<and>
   wall mixed_db = wall (seed_db approved_part) \<and>
   (\<exists>page. wall mixed_db = Inr page \<and> map note_id (wall_notes page) = [5, 4, 3, 2, 1] \<and>
      list_all (\<lambda>n. status n = ''approved'') (wall_notes page)) \<and>
   map status (filter (\<lambda>n. note_id n \<notin> set [5, 4, 3, 2, 1]) (note_table mixed_db)) =
     [''pending'', ''hidden'', ''pending'']"
proof -
  note T = only_approved_notes_count [OF mixed_db_eval(1), of epoch "at_noon 2025 9 10"
      "at_noon 2025 9 10" "''teacher''" 1]
  from T obtain page where p: "wall mixed_db = Inr page"
    "wall_notes page = take 200 (newest_first (approved_notes mixed_db))"
    "\<forall>n\<in>set (wall_notes page). status n = ''approved'' \<and> n \<in> set (note_table mixed_db)"
    by blast
  from p(3) have "list_all (\<lambda>n. status n = ''approved'') (wall_notes page)"
    by (simp add: list_all_iff)
  with p(1,2) have 6: "\<exists>page. wall mixed_db = Inr page \<and>
      map note_id (wall_notes page) = [5, 4, 3, 2, 1] \<and>
      list_all (\<lambda>n. status n = ''approved'') (wall_notes page)"
    by (simp add: mixed_db_eval)
  from T mixed_db_eval(6) have 3: "certificate (seed_db approved_part) ''teacher'' 1 =
      Certificate ''teacher'' 1 ''Mr. Rahman''"
    by simp
  from T have 1: "window_leaders mixed_db epoch (at_noon 2025 9 10) =
     window_leaders (seed_db approved_part) epoch (at_noon 2025 9 10)"
   and 2: "compute_leaders (at_noon 2025 9 10) mixed_db =
     compute_leaders (at_noon 2025 9 10) (seed_db approved_part)"
   and 4: "leaders mixed_db = leaders (seed_db approved_part)"
   and 5: "wall mixed_db = wall (seed_db approved_part)"
    by blast+
  show ?thesis
    by (intro conjI mixed_db_eval 1 2 3 4 5 6)
qed

end
